theory Spec2Isabelle
  imports Main
begin

section \<open>Python strings\<close>

text \<open>
  A Python \<open>str\<close> is a sequence of Unicode code points and \<open>len\<close> counts code points,
  so a string is modelled as a list of code points (natural numbers), not as a list of
  bytes. A literal of the source is written \<open>S ''...''\<close>.
\<close>

type_synonym pystr = "nat list"

definition S :: "string \<Rightarrow> pystr" where
  "S s = map of_char s"

definition NL :: nat where
  "NL = 10"

text \<open>\<open>sep.join(xs)\<close>.\<close>

fun join :: "pystr \<Rightarrow> pystr list \<Rightarrow> pystr" where
  "join sep [] = []"
| "join sep [x] = x"
| "join sep (x # y # ys) = x @ sep @ join sep (y # ys)"

text \<open>\<open>code.split('\n')\<close>: always at least one piece, the empty string gives \<open>['']\<close>.\<close>

fun split_nl :: "pystr \<Rightarrow> pystr list" where
  "split_nl [] = [[]]"
| "split_nl (c # cs) =
     (if c = NL then [] # split_nl cs
      else (case split_nl cs of
              [] \<Rightarrow> [[c]]
            | l # ls \<Rightarrow> (c # l) # ls))"

text \<open>\<open>str(n)\<close> of an integer, as an f-string renders it.\<close>

fun str_nat :: "nat \<Rightarrow> pystr" where
  "str_nat n = (if n < 10 then [48 + n] else str_nat (n div 10) @ [48 + n mod 10])"

declare str_nat.simps [simp del]

definition str_int :: "int \<Rightarrow> pystr" where
  "str_int i = (if i < 0 then 45 # str_nat (nat (- i)) else str_nat (nat i))"

text \<open>
  The size in bytes of a string is the length of its UTF-8 encoding, the encoding
  \<open>extract_source_code\<close> reads files with.
\<close>

definition utf8_len :: "nat \<Rightarrow> nat" where
  "utf8_len c = (if c < 128 then 1 else if c < 2048 then 2 else if c < 65536 then 3 else 4)"

definition byte_size :: "pystr \<Rightarrow> nat" where
  "byte_size s = sum_list (map utf8_len s)"

section \<open>Chunker (app/utils/pipeline\_utils.py)\<close>

definition CHUNK_SIZE :: int where
  "CHUNK_SIZE = 12000"

record chunk =
  file_path :: pystr
  chunk_id :: int
  start_line :: int
  end_line :: int
  code_snippet :: pystr

text \<open>The loop variables of \<open>chunk_code\<close>.\<close>

record chunker =
  chunks :: "chunk list"
  next_chunk_id :: int
  current_chunk_lines :: "pystr list"
  current_chunk_size :: int
  line_offset :: int

text \<open>
  \<open>numbered_lines\<close>: line \<open>idx\<close> of the buffer is rendered as
  \<open># {start_line + idx}: {chunk_line}\<close>.
\<close>

fun numbered_lines :: "int \<Rightarrow> pystr list \<Rightarrow> pystr list" where
  "numbered_lines n [] = []"
| "numbered_lines n (l # ls) = (S ''# '' @ str_int n @ S '': '' @ l) # numbered_lines (n + 1) ls"

text \<open>
  The chunk dictionary built from the buffer, in the loop and after it (the two places
  of the source build it in the same way).
\<close>

definition make_chunk :: "pystr \<Rightarrow> int \<Rightarrow> int \<Rightarrow> pystr list \<Rightarrow> chunk" where
  "make_chunk fp cid off ls =
     (let start = off;
          end = off + int (length ls) - 1;
          chunk_header = S ''### FILE: '' @ fp @ [NL] @ S ''### LINES: '' @ str_int start
                         @ S ''-'' @ str_int end @ [NL]
      in \<lparr> file_path = fp, chunk_id = cid, start_line = start, end_line = end,
           code_snippet = chunk_header @ join [NL] (numbered_lines start ls) \<rparr>)"

text \<open>One iteration of \<open>for i, line in enumerate(lines)\<close>.\<close>

definition chunk_step :: "pystr \<Rightarrow> chunker \<Rightarrow> pystr \<Rightarrow> chunker" where
  "chunk_step fp st line =
     (let line_size = int (length (line @ [NL]));
          st1 = (if current_chunk_size st + line_size > CHUNK_SIZE \<and> current_chunk_lines st \<noteq> []
                 then
                   let c = make_chunk fp (next_chunk_id st) (line_offset st) (current_chunk_lines st)
                   in st \<lparr> chunks := chunks st @ [c],
                           next_chunk_id := next_chunk_id st + 1,
                           line_offset := end_line c + 1,
                           current_chunk_lines := [],
                           current_chunk_size := 0 \<rparr>
                 else st)
      in st1 \<lparr> current_chunk_lines := current_chunk_lines st1 @ [line],
               current_chunk_size := current_chunk_size st1 + line_size \<rparr>)"

definition chunker_init :: chunker where
  "chunker_init = \<lparr> chunks = [], next_chunk_id = 1, current_chunk_lines = [],
                     current_chunk_size = 0, line_offset = 1 \<rparr>"

definition chunk_finish :: "pystr \<Rightarrow> chunker \<Rightarrow> chunk list" where
  "chunk_finish fp st =
     (if current_chunk_lines st \<noteq> []
      then chunks st @ [make_chunk fp (next_chunk_id st) (line_offset st) (current_chunk_lines st)]
      else chunks st)"

definition chunk_lines :: "pystr \<Rightarrow> pystr list \<Rightarrow> chunk list" where
  "chunk_lines fp lines = chunk_finish fp (foldl (chunk_step fp) chunker_init lines)"

definition chunk_code :: "pystr \<Rightarrow> pystr \<Rightarrow> chunk list" where
  "chunk_code fp code = chunk_lines fp (split_nl code)"

subsection \<open>Measures and properties of chunk sequences\<close>

text \<open>
  The size the loop adds up for a line is \<open>len(line + '\n')\<close>, a number of characters;
  \<open>lines_size\<close> is that size for a buffer of lines.
\<close>

definition line_size :: "pystr \<Rightarrow> int" where
  "line_size l = int (length l) + 1"

definition lines_size :: "pystr list \<Rightarrow> int" where
  "lines_size ls = sum_list (map line_size ls)"

text \<open>
  The chunk sequence covers the lines \<open>1..n\<close>: it is not empty, the first chunk starts
  at line 1, the last one ends at line \<open>n\<close>, chunk \<open>k\<close> (counted from 0) has
  \<open>chunk_id = k + 1\<close> and a non-empty range, and each chunk starts on the line after
  the end of the one before.
\<close>

definition line_partition :: "chunk list \<Rightarrow> int \<Rightarrow> bool" where
  "line_partition cs n =
     (cs \<noteq> [] \<and> start_line (hd cs) = 1 \<and> end_line (last cs) = n \<and>
      (\<forall>k < length cs. chunk_id (cs ! k) = int k + 1 \<and> start_line (cs ! k) \<le> end_line (cs ! k)) \<and>
      (\<forall>k. Suc k < length cs \<longrightarrow> start_line (cs ! Suc k) = end_line (cs ! k) + 1))"

text \<open>
  The source lines a chunk stands for, read off its line range, and their size: in
  characters as the loop counts it, and in bytes of the UTF-8 encoding (each line with
  its newline).
\<close>

definition chunk_source_lines :: "pystr \<Rightarrow> chunk \<Rightarrow> pystr list" where
  "chunk_source_lines code c =
     take (nat (end_line c - start_line c + 1)) (drop (nat (start_line c - 1)) (split_nl code))"

definition chunk_chars :: "pystr \<Rightarrow> chunk \<Rightarrow> int" where
  "chunk_chars code c = lines_size (chunk_source_lines code c)"

definition chunk_bytes :: "pystr \<Rightarrow> chunk \<Rightarrow> int" where
  "chunk_bytes code c =
     sum_list (map (\<lambda>l. int (byte_size (l @ [NL]))) (chunk_source_lines code c))"

text \<open>
  For the proofs, the loop is related to the grouping of the lines it computes: the
  chunks are the groups, numbered from 1 and placed one after the other.
\<close>

fun assemble :: "pystr \<Rightarrow> int \<Rightarrow> int \<Rightarrow> pystr list list \<Rightarrow> chunk list" where
  "assemble fp cid off [] = []"
| "assemble fp cid off (g # gs) =
     make_chunk fp cid off g # assemble fp (cid + 1) (off + int (length g)) gs"

definition good_group :: "pystr list \<Rightarrow> bool" where
  "good_group g = (g \<noteq> [] \<and> (lines_size g \<le> CHUNK_SIZE \<or> length g = 1))"

definition chunker_inv :: "pystr \<Rightarrow> pystr list list \<Rightarrow> chunker \<Rightarrow> bool" where
  "chunker_inv fp gs st =
     (chunks st = assemble fp 1 1 gs \<and>
      next_chunk_id st = 1 + int (length gs) \<and>
      line_offset st = 1 + int (length (concat gs)) \<and>
      current_chunk_size st = lines_size (current_chunk_lines st) \<and>
      list_all good_group gs \<and>
      (current_chunk_lines st = [] \<or> good_group (current_chunk_lines st)))"

text \<open>
  The packing is greedy: a group is closed only when the line that follows it does not
  fit, so each group together with the first line of the next one is larger than
  \<open>CHUNK_SIZE\<close>.
\<close>

fun tight :: "pystr list list \<Rightarrow> bool" where
  "tight [] = True"
| "tight [g] = True"
| "tight (a # b # gs) =
     ((case b of [] \<Rightarrow> False | l # _ \<Rightarrow> CHUNK_SIZE < lines_size a + line_size l) \<and>
      tight (b # gs))"

definition chunker_tight :: "pystr list list \<Rightarrow> chunker \<Rightarrow> bool" where
  "chunker_tight gs st =
     (tight (if current_chunk_lines st = [] then gs else gs @ [current_chunk_lines st]) \<and>
      (current_chunk_lines st \<noteq> [] \<or> gs = []))"

subsection \<open>Sample contents\<close>

text \<open>Lines of \<open>n\<close> letters \<open>a\<close> (one byte each) and of \<open>n\<close> letters \<open>e\<close> with acute
  accent (U+00E9, two bytes each in UTF-8).\<close>

definition a_line :: "nat \<Rightarrow> pystr" where
  "a_line n = replicate n 97"

definition e_line :: "nat \<Rightarrow> pystr" where
  "e_line n = replicate n 233"

definition two_chunk_content :: pystr where
  "two_chunk_content = a_line 11999 @ NL # a_line 5"

definition oversized_content :: pystr where
  "oversized_content = a_line 12000 @ NL # a_line 5"

definition three_chunk_content :: pystr where
  "three_chunk_content = a_line 11999 @ NL # a_line 11999 @ NL # a_line 1000"

definition four_chunk_content :: pystr where
  "four_chunk_content =
     a_line 6000 @ NL # a_line 6000 @ NL # a_line 6000 @ NL # a_line 6000 @ NL # a_line 996"

definition five_chunk_content :: pystr where
  "five_chunk_content =
     NL # a_line 11999 @ NL # NL # a_line 11999 @ NL # a_line 998"

definition accented_content :: pystr where
  "accented_content = e_line 5000 @ NL # e_line 5000"

section \<open>PathFilter (app/utils/pipeline\_utils.py)\<close>

definition SOURCE_EXTENSIONS :: "pystr set" where
  "SOURCE_EXTENSIONS = set (map S
     [''.py'', ''.js'', ''.jsx'', ''.ts'', ''.tsx'', ''.java'', ''.go'',
      ''.c'', ''.cpp'', ''.cc'', ''.cxx'', ''.h'', ''.hpp'', ''.rs'',
      ''.rb'', ''.php'', ''.swift'', ''.kt'', ''.scala'', ''.cs'', ''.sh'',
      ''.bash'', ''.zsh'', ''.fish'', ''.ps1'', ''.bat'', ''.cmd''])"

definition EXCLUDED_DIRS :: "pystr set" where
  "EXCLUDED_DIRS = set (map S
     [''.git'', ''.venv'', ''venv'', ''node_modules'', ''dist'', ''build'',
      ''__pycache__'', ''.pytest_cache'', ''.idea'', ''.vscode'', ''target'',
      ''bin'', ''obj'', ''.gradle'', ''.mvn'', ''vendor'', ''bower_components'',
      ''.next'', ''.nuxt'', ''coverage'', ''.nyc_output'', ''out'', ''lib'',
      ''assets'', ''images'', ''img'', ''pictures'', ''pics'', ''media'',
      ''docs'', ''documentation'', ''.github'', ''.gitlab''])"

definition EXCLUDED_EXTENSIONS :: "pystr set" where
  "EXCLUDED_EXTENSIONS = set (map S
     [''.png'', ''.jpg'', ''.jpeg'', ''.gif'', ''.svg'', ''.ico'', ''.bmp'', ''.tiff'', ''.tif'',
      ''.webp'', ''.heic'', ''.heif'', ''.psd'', ''.ai'', ''.eps'', ''.raw'', ''.cr2'', ''.nef'',
      ''.pdf'', ''.doc'', ''.docx'', ''.xls'', ''.xlsx'', ''.ppt'', ''.pptx'', ''.odt'', ''.ods'',
      ''.zip'', ''.tar'', ''.gz'', ''.bz2'', ''.xz'', ''.7z'', ''.rar'', ''.tar.gz'', ''.tar.bz2'',
      ''.mp3'', ''.mp4'', ''.avi'', ''.mov'', ''.wmv'', ''.flv'', ''.webm'', ''.mkv'', ''.m4v'',
      ''.wav'', ''.flac'', ''.aac'', ''.ogg'', ''.wma'',
      ''.json'', ''.yaml'', ''.yml'', ''.toml'', ''.ini'', ''.cfg'', ''.conf'', ''.xml'',
      ''.css'', ''.scss'', ''.sass'', ''.less'', ''.html'', ''.htm'', ''.xhtml'',
      ''.lock'', ''.log'', ''.cache'',
      ''.md'', ''.txt'', ''.rtf'', ''.csv'', ''.tsv'', ''.xlsx'', ''.xls'',
      ''.db'', ''.sqlite'', ''.sqlite3'', ''.mdb'', ''.accdb'',
      ''.exe'', ''.dll'', ''.so'', ''.dylib'', ''.a'', ''.lib'',
      ''.woff'', ''.woff2'', ''.ttf'', ''.eot'', ''.otf'',
      ''.map''])"

definition EXCLUDED_FILES :: "pystr set" where
  "EXCLUDED_FILES = set (map S
     [''package.json'', ''package-lock.json'', ''yarn.lock'', ''pnpm-lock.yaml'',
      ''requirements.txt'', ''requirements-dev.txt'', ''Pipfile'', ''Pipfile.lock'',
      ''poetry.lock'', ''setup.py'', ''setup.cfg'', ''pyproject.toml'',
      ''composer.json'', ''composer.lock'', ''Gemfile'', ''Gemfile.lock'',
      ''go.mod'', ''go.sum'', ''Cargo.toml'', ''Cargo.lock'',
      ''pom.xml'', ''build.gradle'', ''build.gradle.kts'', ''gradle.properties'',
      ''package.xml'', ''bower.json'', ''.bowerrc'',
      ''.gitignore'', ''.gitattributes'', ''.gitmodules'', ''.gitkeep'',
      ''.env'', ''.env.local'', ''.env.development'', ''.env.production'',
      ''.dockerignore'', ''Dockerfile'', ''docker-compose.yml'', ''docker-compose.yaml'',
      ''.editorconfig'', ''.prettierrc'', ''.prettierignore'', ''.eslintrc'', ''.eslintignore'',
      ''tsconfig.json'', ''jsconfig.json'', ''webpack.config.js'', ''vite.config.js'',
      ''rollup.config.js'', ''.babelrc'', ''babel.config.js'',
      ''jest.config.js'', ''jest.config.ts'', ''.nycrc'',
      ''karma.conf.js'', ''protractor.conf.js'',
      ''.travis.yml'', ''.circleci'', ''appveyor.yml'', ''azure-pipelines.yml'',
      ''Makefile'', ''CMakeLists.txt'', ''configure'', ''configure.ac'',
      ''README.md'', ''README.txt'', ''README.rst'', ''CHANGELOG.md'', ''LICENSE'',
      ''CONTRIBUTING.md'', ''CONTRIBUTORS.md'', ''AUTHORS'', ''HISTORY.md'',
      ''.vscode'', ''.idea'', ''.settings'', ''.project'', ''.classpath'',
      ''.DS_Store'', ''Thumbs.db'', ''desktop.ini'',
      ''favicon.ico'', ''robots.txt'', ''sitemap.xml''])"

text \<open>
  \<open>str.lower()\<close>. The configured names are ASCII; the only characters outside ASCII
  whose lower case contains an ASCII character are the Kelvin sign U+212A (lower case
  \<open>k\<close>) and U+0130 (lower case \<open>i\<close> followed by U+0307). The model lowers the ASCII
  capitals and the Kelvin sign and leaves every other code point as it is, which
  decides membership in a set of ASCII names as Python does.
\<close>

definition lower_cp :: "nat \<Rightarrow> nat" where
  "lower_cp c = (if 65 \<le> c \<and> c \<le> 90 then c + 32 else if c = 8490 then 107 else c)"

definition lower :: "pystr \<Rightarrow> pystr" where
  "lower s = map lower_cp s"

definition DOT :: nat where
  "DOT = 46"

text \<open>\<open>part.startswith('.')\<close>.\<close>

definition startswith_dot :: "pystr \<Rightarrow> bool" where
  "startswith_dot s = (case s of [] \<Rightarrow> False | c # _ \<Rightarrow> c = DOT)"

text \<open>
  A path is the tuple of its parts (\<open>Path.parts\<close>). \<open>Path.name\<close> of a relative path is
  its last part, or the empty string when there is none; \<open>Path.suffix\<close> is
  \<open>name[i:]\<close> for \<open>i = name.rfind('.')\<close> when \<open>0 < i < len(name) - 1\<close>, and the
  empty string otherwise.
\<close>

type_synonym path = "pystr list"

definition path_name :: "path \<Rightarrow> pystr" where
  "path_name p = (if p = [] then [] else last p)"

definition rfind :: "nat \<Rightarrow> pystr \<Rightarrow> int" where
  "rfind c s =
     (if c \<in> set s then int (length s) - 1 - int (length (takeWhile (\<lambda>x. x \<noteq> c) (rev s)))
      else - 1)"

definition suffix_of :: "pystr \<Rightarrow> pystr" where
  "suffix_of name =
     (let i = rfind DOT name
      in if 0 < i \<and> i < int (length name) - 1 then drop (nat i) name else [])"

definition path_suffix :: "path \<Rightarrow> pystr" where
  "path_suffix p = suffix_of (path_name p)"

text \<open>
  The loop over \<open>path_obj.parts\<close>: \<open>True\<close> when it returns \<open>True\<close>, \<open>False\<close> when it
  runs to its end. \<open>continue\<close> skips the directory-name test of that part.
\<close>

fun excluded_by_parts :: "pystr \<Rightarrow> pystr \<Rightarrow> pystr list \<Rightarrow> bool" where
  "excluded_by_parts nm sfx [] = False"
| "excluded_by_parts nm sfx (part # rest) =
     (if startswith_dot part \<and> part \<noteq> S ''.'' \<and> part \<noteq> S ''..'' then
        (if part = nm \<and> sfx \<noteq> [] then
           (if lower sfx \<in> SOURCE_EXTENSIONS then excluded_by_parts nm sfx rest
            else if lower part \<in> EXCLUDED_DIRS then True
            else excluded_by_parts nm sfx rest)
         else True)
      else if lower part \<in> EXCLUDED_DIRS then True
      else excluded_by_parts nm sfx rest)"

definition should_exclude_path :: "path \<Rightarrow> bool" where
  "should_exclude_path p =
     (let nm = path_name p; sfx = path_suffix p
      in if excluded_by_parts nm sfx p then True
         else if sfx \<noteq> [] \<or> nm \<noteq> [] then
           (let file_ext = (if sfx \<noteq> [] then lower sfx else []);
                file_name = nm;
                excluded_files_lower = lower ` EXCLUDED_FILES
            in if lower file_name \<in> excluded_files_lower then True
               else if file_ext \<noteq> [] \<and> file_ext \<in> EXCLUDED_EXTENSIONS then True
               else if file_ext = [] then True
               else if file_ext \<notin> SOURCE_EXTENSIONS then True
               else False)
         else False)"

section \<open>SourceExtractor (app/utils/pipeline\_utils.py)\<close>

datatype py_exception =
    ValueError pystr
  | KeyError pystr
  | OSError pystr
  | UnicodeDecodeError
  | Exception pystr

text \<open>
  What \<open>extract_source_code\<close> sees of the disk. An entry that \<open>rglob('*')\<close> yields has
  the parts of its path relative to the root, what \<open>is_file()\<close> gives on it (a truth
  value, or the \<open>OSError\<close> it raises: \<open>Path.is_file\<close> swallows only the errors of a
  missing or unreachable file, and raises for instance on a dangling symbolic link
  whose target name is too long), and what opening and reading it as text gives (the
  decoded content, or the exception raised).
\<close>

record fs_entry =
  rel_parts :: path
  is_file :: "py_exception + bool"
  read_result :: "py_exception + pystr"

text \<open>
  A path that exists is mapped to the walk under it: the steps of \<open>resolve()\<close> and of
  the generator \<open>rglob('*')\<close>, in order, each of which yields an entry or raises.
\<close>

datatype walk_step =
    Yield fs_entry
  | Raise py_exception

type_synonym file_system = "pystr \<Rightarrow> walk_step list option"

text \<open>\<open>str(relative_path)\<close> on a POSIX system.\<close>

definition path_str :: "path \<Rightarrow> pystr" where
  "path_str p = (if p = [] then S ''.'' else join (S ''/'') p)"

text \<open>
  The binary heuristic: a NUL character, or more control characters (other than newline,
  carriage return and tab) among the first 1024 characters than 0.3 times their number.
  The source compares the integer count with the floating-point product \<open>n * 0.3\<close>;
  for \<open>n \<le> 1024\<close> that comparison has the same result as \<open>10 * count > 3 * n\<close> on
  integers.
\<close>

definition is_control :: "nat \<Rightarrow> bool" where
  "is_control c = (c < 32 \<and> c \<notin> {10, 13, 9})"

definition looks_binary :: "pystr \<Rightarrow> bool" where
  "looks_binary content =
     (0 \<in> set content \<or>
      10 * length (filter is_control (take 1024 content)) > 3 * length (take 1024 content))"

text \<open>\<open>source_files[key] = content\<close> on a dictionary that keeps insertion order.\<close>

fun dict_set :: "'k \<Rightarrow> 'v \<Rightarrow> ('k \<times> 'v) list \<Rightarrow> ('k \<times> 'v) list" where
  "dict_set k v [] = [(k, v)]"
| "dict_set k v ((k', v') # d) = (if k' = k then (k, v) # d else (k', v') # dict_set k v d)"

text \<open>
  The body of the loop over \<open>repo_path_abs.rglob('*')\<close> for an entry on which \<open>is_file()\<close>
  returned true. Only the opening and reading of the file is inside the \<open>try\<close>. The
  source takes the suffix of the absolute path for its second extension test; a file
  under the root has the same name, and so the same suffix, as its relative path.
  Printing is taken to succeed.
\<close>

definition extract_file :: "(pystr \<times> pystr) list \<Rightarrow> fs_entry \<Rightarrow> (pystr \<times> pystr) list" where
  "extract_file source_files e =
     (let relative_path = rel_parts e
      in if should_exclude_path relative_path then source_files
         else
           (let file_ext = (if path_suffix relative_path \<noteq> []
                            then lower (path_suffix relative_path) else [])
            in if file_ext \<notin> SOURCE_EXTENSIONS then source_files
               else
                 (case read_result e of
                    Inl _ \<Rightarrow> source_files
                  | Inr content \<Rightarrow>
                      if looks_binary content then source_files
                      else dict_set (path_str relative_path) content source_files)))"

text \<open>
  The loop: an exception of the walk or of \<open>is_file()\<close> is outside the \<open>try\<close> of the
  body and ends the function.
\<close>

fun extract_walk ::
  "(pystr \<times> pystr) list \<Rightarrow> walk_step list \<Rightarrow> py_exception + (pystr \<times> pystr) list" where
  "extract_walk source_files [] = Inr source_files"
| "extract_walk source_files (Raise x # rest) = Inl x"
| "extract_walk source_files (Yield e # rest) =
     (case is_file e of
        Inl x \<Rightarrow> Inl x
      | Inr b \<Rightarrow> extract_walk (if b then extract_file source_files e else source_files) rest)"

definition extract_source_code :: "file_system \<Rightarrow> pystr \<Rightarrow> py_exception + (pystr \<times> pystr) list" where
  "extract_source_code fs repo_path =
     (case fs repo_path of
        None \<Rightarrow> Inl (ValueError (S ''Repository path does not exist: '' @ repo_path))
      | Some walk \<Rightarrow> extract_walk [] walk)"

text \<open>\<open>process_repository\<close>: extract, then chunk every file in the order of the dictionary.\<close>

definition process_repository :: "file_system \<Rightarrow> pystr \<Rightarrow> py_exception + chunk list" where
  "process_repository fs repo_path =
     (case extract_source_code fs repo_path of
        Inl e \<Rightarrow> Inl e
      | Inr source_files \<Rightarrow>
          if source_files = [] then Inr []
          else Inr (concat (map (\<lambda>(file_path, code). chunk_code file_path code) source_files)))"

subsection \<open>What the extractor keeps\<close>

text \<open>
  A walk is quiet when no step raises and \<open>is_file()\<close> raises on no entry; its regular
  files are the entries on which \<open>is_file()\<close> is true.
\<close>

fun quiet_step :: "walk_step \<Rightarrow> bool" where
  "quiet_step (Raise x) = False"
| "quiet_step (Yield e) = (case is_file e of Inl x \<Rightarrow> False | Inr b \<Rightarrow> True)"

definition walk_quiet :: "walk_step list \<Rightarrow> bool" where
  "walk_quiet walk = list_all quiet_step walk"

fun regular_files :: "walk_step list \<Rightarrow> fs_entry list" where
  "regular_files [] = []"
| "regular_files (Raise x # rest) = regular_files rest"
| "regular_files (Yield e # rest) =
     (if is_file e = Inr True then e # regular_files rest else regular_files rest)"

text \<open>
  The files the body stores: those that pass the path filter, have a source extension,
  can be read, and do not look binary; with the key and the content stored.
\<close>

definition passes_filter :: "fs_entry \<Rightarrow> bool" where
  "passes_filter e =
     (\<not> should_exclude_path (rel_parts e) \<and>
      (if path_suffix (rel_parts e) \<noteq> [] then lower (path_suffix (rel_parts e)) else [])
        \<in> SOURCE_EXTENSIONS)"

definition extracted :: "fs_entry \<Rightarrow> (pystr \<times> pystr) option" where
  "extracted e =
     (if passes_filter e
      then (case read_result e of
              Inl _ \<Rightarrow> None
            | Inr content \<Rightarrow>
                if looks_binary content then None else Some (path_str (rel_parts e), content))
      else None)"

text \<open>A sample repository: two readable source files and one that cannot be read.\<close>

definition file_a :: fs_entry where
  "file_a = \<lparr> rel_parts = [S ''src'', S ''a.py''], is_file = Inr True,
              read_result = Inr (S ''x = 1'') \<rparr>"

definition file_b :: fs_entry where
  "file_b = \<lparr> rel_parts = [S ''src'', S ''b.py''], is_file = Inr True,
              read_result = Inl (Exception (S ''Permission denied'')) \<rparr>"

definition file_go :: fs_entry where
  "file_go = \<lparr> rel_parts = [S ''main.go''], is_file = Inr True,
               read_result = Inr (S ''package main'') \<rparr>"

definition sample_files :: "fs_entry list" where
  "sample_files = [file_a, file_b, file_go]"

definition sample_entries :: "walk_step list" where
  "sample_entries = map Yield sample_files"

definition sample_fs :: file_system where
  "sample_fs p = (if p = S ''github_repos/demo'' then Some sample_entries else None)"

text \<open>
  The same repository with one more entry, yielded second: a dangling symbolic link
  whose target name is too long, on which \<open>is_file()\<close> raises.
\<close>

definition long_link :: fs_entry where
  "long_link =
     \<lparr> rel_parts = [S ''link''], is_file = Inl (OSError (S ''[Errno 36] File name too long'')),
       read_result = Inl (OSError (S ''[Errno 36] File name too long'')) \<rparr>"

definition link_entries :: "walk_step list" where
  "link_entries = [Yield file_a, Yield long_link, Yield file_b, Yield file_go]"

definition link_fs :: file_system where
  "link_fs p = (if p = S ''github_repos/demo'' then Some link_entries else None)"

section \<open>Findings and report aggregation (app/schemas.py, app/controllers/pipeline.py,
  app/utils/mongo\_utils.py)\<close>

text \<open>The pydantic models \<open>Vulnerability\<close> and \<open>VulnerabilityScanResult\<close>. The severity is
  a \<open>str\<close>: the schema does not restrict it to the five names of its comment.\<close>

record vulnerability =
  vulnerability_type :: pystr
  severity :: pystr
  vuln_file_path :: pystr
  vuln_start_line :: int
  vuln_end_line :: int
  description :: pystr
  vuln_code_snippet :: pystr
  recommendation :: pystr
  cwe_id :: "pystr option"
  owasp_category :: "pystr option"
  vibe_coder_explanation :: "pystr option"

record scan_result =
  scan_chunk_id :: int
  scan_file_path :: pystr
  vulnerabilities :: "vulnerability list"
  scan_status :: pystr
  error_message :: "pystr option"

subsection \<open>The report of \<open>run_pipeline\<close>\<close>

text \<open>
  \<open>sum(1 for result in scan_results_dict for v in result['vulnerabilities']
  if v['severity'] == sev)\<close>.
\<close>

definition count_findings :: "pystr \<Rightarrow> scan_result list \<Rightarrow> int" where
  "count_findings sev results =
     sum_list (map (\<lambda>v. 1) (filter (\<lambda>v. severity v = sev) (concat (map vulnerabilities results))))"

record severity_counts =
  critical :: int
  high :: int
  medium :: int
  low :: int
  info :: int

record report =
  total_vulnerabilities :: int
  severity_breakdown :: severity_counts
  scan_results :: "scan_result list"

definition pipeline_report :: "scan_result list \<Rightarrow> report" where
  "pipeline_report results =
     (let total_vulns = sum_list (map (\<lambda>result. int (length (vulnerabilities result))) results);
          counts = \<lparr> critical = count_findings (S ''Critical'') results,
                     high = count_findings (S ''High'') results,
                     medium = count_findings (S ''Medium'') results,
                     low = count_findings (S ''Low'') results,
                     info = count_findings (S ''Info'') results \<rparr>
      in \<lparr> total_vulnerabilities = total_vulns, severity_breakdown = counts,
           scan_results = results \<rparr>)"

subsection \<open>The \<open>VulnerabilityReport\<close> of \<open>save_vulnerability_report\<close>\<close>

text \<open>\<open>sum(1 for v in all_vulnerabilities if v.severity == sev)\<close>.\<close>

definition count_severity :: "pystr \<Rightarrow> vulnerability list \<Rightarrow> int" where
  "count_severity sev vs = sum_list (map (\<lambda>v. 1) (filter (\<lambda>v. severity v = sev) vs))"

record vulnerability_report =
  vr_user_id :: pystr
  vr_github_id :: pystr
  vr_repo_id :: pystr
  vr_repo_name :: pystr
  vr_total_vulnerabilities :: int
  vr_critical_count :: int
  vr_high_count :: int
  vr_medium_count :: int
  vr_low_count :: int
  vr_info_count :: int
  vr_scan_results :: "scan_result list"
  vr_scan_completed_at :: int
  vr_created_at :: int
  vr_updated_at :: int

text \<open>
  The first part of \<open>save_vulnerability_report\<close>: the findings are flattened and
  counted, and the report is built; \<open>t1\<close>, \<open>t2\<close> and \<open>t3\<close> are the three readings of
  \<open>datetime.now()\<close>.
\<close>

definition build_vulnerability_report ::
  "pystr \<Rightarrow> pystr \<Rightarrow> pystr \<Rightarrow> pystr \<Rightarrow> scan_result list \<Rightarrow> int \<Rightarrow> int \<Rightarrow> int \<Rightarrow> vulnerability_report" where
  "build_vulnerability_report user_id github_id repo_id repo_name results t1 t2 t3 =
     (let all_vulnerabilities = foldl (\<lambda>acc scan_result. acc @ vulnerabilities scan_result) [] results
      in \<lparr> vr_user_id = user_id, vr_github_id = github_id, vr_repo_id = repo_id,
           vr_repo_name = repo_name,
           vr_total_vulnerabilities = int (length all_vulnerabilities),
           vr_critical_count = count_severity (S ''Critical'') all_vulnerabilities,
           vr_high_count = count_severity (S ''High'') all_vulnerabilities,
           vr_medium_count = count_severity (S ''Medium'') all_vulnerabilities,
           vr_low_count = count_severity (S ''Low'') all_vulnerabilities,
           vr_info_count = count_severity (S ''Info'') all_vulnerabilities,
           vr_scan_results = results,
           vr_scan_completed_at = t1, vr_created_at = t2, vr_updated_at = t3 \<rparr>)"

subsection \<open>Properties of reports\<close>

definition SEVERITIES :: "pystr set" where
  "SEVERITIES = {S ''Critical'', S ''High'', S ''Medium'', S ''Low'', S ''Info''}"

definition all_findings :: "scan_result list \<Rightarrow> vulnerability list" where
  "all_findings results = concat (map vulnerabilities results)"

definition counts_sum :: "severity_counts \<Rightarrow> int" where
  "counts_sum b = critical b + high b + medium b + low b + info b"

definition vr_counts_sum :: "vulnerability_report \<Rightarrow> int" where
  "vr_counts_sum r =
     vr_critical_count r + vr_high_count r + vr_medium_count r + vr_low_count r + vr_info_count r"

text \<open>A finding, and one scan result whose only finding has the severity \<open>critical\<close> in
  lower case.\<close>

definition sample_finding :: "pystr \<Rightarrow> vulnerability" where
  "sample_finding sev =
     \<lparr> vulnerability_type = S ''SQL Injection'', severity = sev,
       vuln_file_path = S ''src/a.py'', vuln_start_line = 1, vuln_end_line = 1,
       description = S ''query built from input'', vuln_code_snippet = S ''x = 1'',
       recommendation = S ''use parameters'', cwe_id = None, owasp_category = None,
       vibe_coder_explanation = None \<rparr>"

definition sample_scan :: "pystr list \<Rightarrow> scan_result" where
  "sample_scan sevs =
     \<lparr> scan_chunk_id = 1, scan_file_path = S ''src/a.py'',
       vulnerabilities = map sample_finding sevs,
       scan_status = S ''completed'', error_message = None \<rparr>"

section \<open>Persistence (app/utils/mongo\_utils.py)\<close>

text \<open>
  A stored document is a dictionary from field names to values. Time stamps are
  numbers; \<open>BId\<close> is an \<open>ObjectId\<close>.
\<close>

datatype bson =
    BNone
  | BStr pystr
  | BInt int
  | BTime int
  | BId nat
  | BChunks "chunk list"
  | BScanResults "scan_result list"

type_synonym document = "string \<rightharpoonup> bson"

text \<open>The pydantic model \<open>PipelineResult\<close> and \<open>model_dump()\<close> of the two stored models.\<close>

record pipeline_result =
  pr_user_id :: pystr
  pr_github_id :: pystr
  pr_repo_id :: pystr
  pr_repo_name :: pystr
  pr_chunks :: "chunk list"
  pr_total_chunks :: int
  pr_repo_path :: "pystr option"
  pr_created_at :: int
  pr_updated_at :: int

definition bson_opt_str :: "pystr option \<Rightarrow> bson" where
  "bson_opt_str x = (case x of None \<Rightarrow> BNone | Some s \<Rightarrow> BStr s)"

definition model_dump_pipeline :: "pipeline_result \<Rightarrow> document" where
  "model_dump_pipeline p =
     [''user_id'' \<mapsto> BStr (pr_user_id p),
      ''github_id'' \<mapsto> BStr (pr_github_id p),
      ''repo_id'' \<mapsto> BStr (pr_repo_id p),
      ''repo_name'' \<mapsto> BStr (pr_repo_name p),
      ''chunks'' \<mapsto> BChunks (pr_chunks p),
      ''total_chunks'' \<mapsto> BInt (pr_total_chunks p),
      ''repo_path'' \<mapsto> bson_opt_str (pr_repo_path p),
      ''created_at'' \<mapsto> BTime (pr_created_at p),
      ''updated_at'' \<mapsto> BTime (pr_updated_at p)]"

definition model_dump_report :: "vulnerability_report \<Rightarrow> document" where
  "model_dump_report r =
     [''user_id'' \<mapsto> BStr (vr_user_id r),
      ''github_id'' \<mapsto> BStr (vr_github_id r),
      ''repo_id'' \<mapsto> BStr (vr_repo_id r),
      ''repo_name'' \<mapsto> BStr (vr_repo_name r),
      ''total_vulnerabilities'' \<mapsto> BInt (vr_total_vulnerabilities r),
      ''critical_count'' \<mapsto> BInt (vr_critical_count r),
      ''high_count'' \<mapsto> BInt (vr_high_count r),
      ''medium_count'' \<mapsto> BInt (vr_medium_count r),
      ''low_count'' \<mapsto> BInt (vr_low_count r),
      ''info_count'' \<mapsto> BInt (vr_info_count r),
      ''scan_results'' \<mapsto> BScanResults (vr_scan_results r),
      ''scan_completed_at'' \<mapsto> BTime (vr_scan_completed_at r),
      ''created_at'' \<mapsto> BTime (vr_created_at r),
      ''updated_at'' \<mapsto> BTime (vr_updated_at r)]"

subsection \<open>Collections\<close>

text \<open>
  A collection is the list of its documents. A filter of equalities matches a document
  that has each field with the given value; \<open>find_one\<close> returns the first match,
  \<open>update_one\<close> with \<open>$set\<close> overwrites the given fields of the first match, and
  \<open>insert_one\<close> adds the document, with a new \<open>_id\<close> if it has none.
\<close>

definition matches :: "(string \<times> bson) list \<Rightarrow> document \<Rightarrow> bool" where
  "matches flt d = list_all (\<lambda>(k, v). d k = Some v) flt"

definition find_one :: "(string \<times> bson) list \<Rightarrow> document list \<Rightarrow> document option" where
  "find_one flt coll = find (matches flt) coll"

fun update_one :: "(string \<times> bson) list \<Rightarrow> document \<Rightarrow> document list \<Rightarrow> document list" where
  "update_one flt upd [] = []"
| "update_one flt upd (d # ds) =
     (if matches flt d then (d ++ upd) # ds else d # update_one flt upd ds)"

definition insert_one :: "document \<Rightarrow> nat \<Rightarrow> document list \<Rightarrow> document list" where
  "insert_one doc oid coll =
     coll @ [if doc ''_id'' = None then doc(''_id'' \<mapsto> BId oid) else doc]"

text \<open>
  The state the save functions work on: the two collections, whether the database
  answers, the clock (\<open>clock w k\<close> is the \<open>k\<close>-th reading of \<open>datetime.now()\<close>, \<open>ticks\<close>
  counts the readings taken) and the next \<open>ObjectId\<close>.
\<close>

record store =
  pipeline_results :: "document list"
  vulnerability_reports :: "document list"
  db_available :: bool
  clock :: "nat \<Rightarrow> int"
  ticks :: nat
  next_oid :: nat

definition reading :: "store \<Rightarrow> int" where
  "reading w = clock w (ticks w)"

definition tick :: "store \<Rightarrow> store" where
  "tick w = w \<lparr> ticks := Suc (ticks w) \<rparr>"

definition repo_key :: "pystr \<Rightarrow> pystr \<Rightarrow> pystr \<Rightarrow> (string \<times> bson) list" where
  "repo_key user_id github_id repo_id =
     [(''user_id'', BStr user_id), (''github_id'', BStr github_id), (''repo_id'', BStr repo_id)]"

text \<open>\<open>existing.get("created_at", default)\<close>.\<close>

definition get_created_at :: "document \<Rightarrow> bson \<Rightarrow> bson" where
  "get_created_at existing dflt = (case existing ''created_at'' of Some v \<Rightarrow> v | None \<Rightarrow> dflt)"

definition save_pipeline_result ::
  "store \<Rightarrow> pystr \<Rightarrow> pystr \<Rightarrow> pystr \<Rightarrow> pystr \<Rightarrow> chunk list \<Rightarrow> pystr option
     \<Rightarrow> py_exception + (bson \<times> store)" where
  "save_pipeline_result w user_id github_id repo_id repo_name cs repo_path =
     (if \<not> db_available w then Inl (Exception (S ''database unavailable''))
      else
        let existing = find_one (repo_key user_id github_id repo_id) (pipeline_results w);
            t1 = reading w; w1 = tick w;
            t2 = reading w1; w2 = tick w1;
            pipeline_result =
              \<lparr> pr_user_id = user_id, pr_github_id = github_id, pr_repo_id = repo_id,
                pr_repo_name = repo_name, pr_chunks = cs,
                pr_total_chunks = int (length cs), pr_repo_path = repo_path,
                pr_created_at = t1, pr_updated_at = t2 \<rparr>
        in case existing of
             Some ex \<Rightarrow>
               (let t3 = reading w2; w3 = tick w2;
                    t4 = reading w3; w4 = tick w3;
                    update_data = (model_dump_pipeline pipeline_result)
                      (''created_at'' \<mapsto> get_created_at ex (BTime t3),
                       ''updated_at'' \<mapsto> BTime t4)
                in case ex ''_id'' of
                     None \<Rightarrow> Inl (KeyError (S ''_id''))
                   | Some i \<Rightarrow>
                       Inr (i, w4 \<lparr> pipeline_results :=
                                      update_one [(''_id'', i)] update_data (pipeline_results w4) \<rparr>))
           | None \<Rightarrow>
               Inr (BId (next_oid w2),
                    w2 \<lparr> pipeline_results :=
                           insert_one (model_dump_pipeline pipeline_result) (next_oid w2)
                             (pipeline_results w2),
                         next_oid := Suc (next_oid w2) \<rparr>))"

definition save_vulnerability_report ::
  "store \<Rightarrow> pystr \<Rightarrow> pystr \<Rightarrow> pystr \<Rightarrow> pystr \<Rightarrow> scan_result list
     \<Rightarrow> py_exception + (bson \<times> store)" where
  "save_vulnerability_report w user_id github_id repo_id repo_name results =
     (let t1 = reading w; w1 = tick w;
          t2 = reading w1; w2 = tick w1;
          t3 = reading w2; w3 = tick w2;
          vulnerability_report =
            build_vulnerability_report user_id github_id repo_id repo_name results t1 t2 t3
      in if \<not> db_available w3 then Inl (Exception (S ''database unavailable''))
         else
           case find_one (repo_key user_id github_id repo_id) (vulnerability_reports w3) of
             Some ex \<Rightarrow>
               (let t4 = reading w3; w4 = tick w3;
                    t5 = reading w4; w5 = tick w4;
                    update_data = (model_dump_report vulnerability_report)
                      (''created_at'' \<mapsto> get_created_at ex (BTime t4),
                       ''updated_at'' \<mapsto> BTime t5)
                in case ex ''_id'' of
                     None \<Rightarrow> Inl (KeyError (S ''_id''))
                   | Some i \<Rightarrow>
                       Inr (i, w5 \<lparr> vulnerability_reports :=
                                      update_one [(''_id'', i)] update_data
                                        (vulnerability_reports w5) \<rparr>))
           | None \<Rightarrow>
               Inr (BId (next_oid w3),
                    w3 \<lparr> vulnerability_reports :=
                           insert_one (model_dump_report vulnerability_report) (next_oid w3)
                             (vulnerability_reports w3),
                         next_oid := Suc (next_oid w3) \<rparr>))"

text \<open>A store that holds one pipeline record and one vulnerability report of the same
  key, both created at time 100 and last updated at time 150; the clock reads 200, 201, ...\<close>

definition old_pipeline_doc :: document where
  "old_pipeline_doc =
     [''_id'' \<mapsto> BId 7, ''user_id'' \<mapsto> BStr (S ''u1''), ''github_id'' \<mapsto> BStr (S ''g1''),
      ''repo_id'' \<mapsto> BStr (S ''r1''), ''repo_name'' \<mapsto> BStr (S ''owner/old''),
      ''chunks'' \<mapsto> BChunks [], ''total_chunks'' \<mapsto> BInt 0, ''repo_path'' \<mapsto> BNone,
      ''created_at'' \<mapsto> BTime 100, ''updated_at'' \<mapsto> BTime 150]"

definition old_report_doc :: document where
  "old_report_doc =
     [''_id'' \<mapsto> BId 8, ''user_id'' \<mapsto> BStr (S ''u1''), ''github_id'' \<mapsto> BStr (S ''g1''),
      ''repo_id'' \<mapsto> BStr (S ''r1''), ''repo_name'' \<mapsto> BStr (S ''owner/old''),
      ''total_vulnerabilities'' \<mapsto> BInt 0, ''critical_count'' \<mapsto> BInt 0,
      ''high_count'' \<mapsto> BInt 0, ''medium_count'' \<mapsto> BInt 0, ''low_count'' \<mapsto> BInt 0,
      ''info_count'' \<mapsto> BInt 0, ''scan_results'' \<mapsto> BScanResults [],
      ''scan_completed_at'' \<mapsto> BTime 150,
      ''created_at'' \<mapsto> BTime 100, ''updated_at'' \<mapsto> BTime 150]"

definition sample_store :: store where
  "sample_store =
     \<lparr> pipeline_results = [old_pipeline_doc], vulnerability_reports = [old_report_doc],
       db_available = True, clock = (\<lambda>k. 200 + int k), ticks = 0, next_oid = 9 \<rparr>"

section \<open>Cloning and the pipeline run (app/utils/pipeline\_utils.py,
  app/controllers/pipeline.py)\<close>

subsection \<open>String and path helpers\<close>

definition SLASH :: nat where
  "SLASH = 47"

text \<open>\<open>s.split(sep)\<close> for a separator of one character.\<close>

fun split_on :: "nat \<Rightarrow> pystr \<Rightarrow> pystr list" where
  "split_on sep [] = [[]]"
| "split_on sep (c # cs) =
     (if c = sep then [] # split_on sep cs
      else (case split_on sep cs of
              [] \<Rightarrow> [[c]]
            | l # ls \<Rightarrow> (c # l) # ls))"

text \<open>\<open>s.startswith(p)\<close>, \<open>sub in s\<close> and \<open>s.replace(old, new)\<close> for a non-empty \<open>old\<close>.\<close>

definition startswith :: "pystr \<Rightarrow> pystr \<Rightarrow> bool" where
  "startswith s p = (take (length p) s = p)"

fun contains :: "pystr \<Rightarrow> pystr \<Rightarrow> bool" where
  "contains [] sub = (sub = [])"
| "contains (c # cs) sub = (startswith (c # cs) sub \<or> contains cs sub)"

fun replace_from :: "nat \<Rightarrow> pystr \<Rightarrow> pystr \<Rightarrow> pystr \<Rightarrow> pystr" where
  "replace_from skip old new [] = []"
| "replace_from skip old new (c # cs) =
     (if skip > 0 then replace_from (skip - 1) old new cs
      else if startswith (c # cs) old then new @ replace_from (length old - 1) old new cs
      else c # replace_from 0 old new cs)"

definition replace :: "pystr \<Rightarrow> pystr \<Rightarrow> pystr \<Rightarrow> pystr" where
  "replace old new s = replace_from 0 old new s"

text \<open>
  \<open>str(base / seg)\<close> for a segment without a slash: an empty segment and \<open>.\<close> leave
  the base as it is.
\<close>

definition path_join :: "pystr \<Rightarrow> pystr \<Rightarrow> pystr" where
  "path_join base seg = (if seg = [] \<or> seg = S ''.'' then base else base @ S ''/'' @ seg)"

text \<open>\<open>str(e)\<close> of an exception.\<close>

definition exn_str :: "py_exception \<Rightarrow> pystr" where
  "exn_str e =
     (case e of
        ValueError m \<Rightarrow> m
      | KeyError k \<Rightarrow> S [CHR 0x27] @ k @ S [CHR 0x27]
      | OSError m \<Rightarrow> m
      | UnicodeDecodeError \<Rightarrow> S ''codec can not decode''
      | Exception m \<Rightarrow> m)"

subsection \<open>The environment of a run\<close>

text \<open>
  What \<open>subprocess.run(['git', 'clone', ...])\<close> does: it returns, it times out, git
  exits with an error (with the text the message shows), the git program is missing,
  or another exception is raised.
\<close>

datatype git_outcome =
    GitOk
  | GitTimeout
  | GitFailed pystr
  | GitNotFound
  | GitError pystr

text \<open>
  The collaborators of a run: git (by clone URL and target path) and the tree a clone
  puts on disk; a fault that makes \<open>process_repository\<close> raise, if any;
  \<open>vulnerability_detector.analyze_repository\<close>, which returns scan results or raises (an
  exception raised while the results are aggregated takes the same path); and the
  error \<open>shutil.rmtree\<close> raises, if any.
\<close>

record run_env =
  git_clone :: "pystr \<Rightarrow> pystr \<Rightarrow> git_outcome"
  cloned_tree :: "walk_step list"
  process_fault :: "py_exception option"
  analyze_repository :: "chunk list \<Rightarrow> py_exception + scan_result list"
  rmtree_error :: "pystr option"

text \<open>The state a run changes: the disk, the database, and the calls of
  \<open>shutil.rmtree\<close> made so far.\<close>

record run_world =
  files :: file_system
  db :: store
  rmtree_calls :: "pystr list"

definition mkdir_exist_ok :: "pystr \<Rightarrow> file_system \<Rightarrow> file_system" where
  "mkdir_exist_ok p fs = (if fs p = None then fs(p \<mapsto> []) else fs)"

text \<open>\<open>shutil.rmtree(p)\<close> when it succeeds: the path and everything under it are gone.\<close>

definition rmtree :: "pystr \<Rightarrow> file_system \<Rightarrow> file_system" where
  "rmtree p fs = (\<lambda>q. if q = p \<or> startswith q (p @ S ''/'') then None else fs q)"

subsection \<open>\<open>clone_repository\<close>\<close>

datatype clone_result =
    CloneSucceeded pystr pystr
  | CloneFailed pystr



definition clone_repository ::
  "run_env \<Rightarrow> file_system \<Rightarrow> pystr \<Rightarrow> pystr \<Rightarrow> pystr \<Rightarrow> pystr option
     \<Rightarrow> clone_result \<times> file_system" where
  "clone_repository env fs0 repo_url0 target_dir_name base_dir access_token =
     (let fs = mkdir_exist_ok base_dir fs0
      in if \<not> startswith repo_url0 (S ''http'') \<and> \<not> contains repo_url0 (S ''/'')
         then (CloneFailed
                 (S ''Invalid repo URL format. Use \"owner/repo\" or full GitHub URL.''), fs)
         else
           (let repo_url = (if \<not> startswith repo_url0 (S ''http'')
                            then S ''https://github.com/'' @ repo_url0 @ S ''.git''
                            else repo_url0);
                target_path = path_join base_dir target_dir_name
            in if fs target_path \<noteq> None
               then (CloneSucceeded target_path
                       (S ''Repository already exists at '' @ target_path), fs)
               else
                 (let clone_url =
                        (case access_token of
                           None \<Rightarrow> repo_url
                         | Some token \<Rightarrow>
                             if token \<noteq> [] \<and> contains repo_url (S ''github.com'')
                             then replace (S ''https://github.com/'')
                                    (S ''https://'' @ token @ S ''@github.com/'') repo_url
                             else repo_url)
                  in case git_clone env clone_url target_path of
                       GitOk \<Rightarrow>
                         (CloneSucceeded target_path
                            (S ''Successfully cloned repository to '' @ target_path),
                          fs(target_path \<mapsto> cloned_tree env))
                     | GitTimeout \<Rightarrow>
                         (CloneFailed (S ''Clone operation timed out after 5 minutes''), fs)
                     | GitFailed error_msg \<Rightarrow>
                         (CloneFailed (S ''Failed to clone repository: '' @ error_msg), fs)
                     | GitNotFound \<Rightarrow>
                         (CloneFailed (S ''Git is not installed or not found in PATH''), fs)
                     | GitError msg \<Rightarrow>
                         (CloneFailed (S ''Unexpected error during clone: '' @ msg), fs))))"

subsection \<open>\<open>run_pipeline\<close>\<close>

record run_result =
  res_success :: bool
  res_message :: pystr
  res_repo_path :: "pystr option"
  res_total_chunks :: "int option"
  res_chunks :: "chunk list"
  res_vulnerability_report :: "report option"

definition failure_result :: "pystr \<Rightarrow> run_result" where
  "failure_result msg =
     \<lparr> res_success = False, res_message = msg, res_repo_path = None, res_total_chunks = None,
       res_chunks = [], res_vulnerability_report = None \<rparr>"

text \<open>\<open>pipeline_utils.process_repository(str(repo_path))\<close> as the run sees it.\<close>

definition run_process :: "run_env \<Rightarrow> run_world \<Rightarrow> pystr \<Rightarrow> py_exception + chunk list" where
  "run_process env w repo_path =
     (case process_fault env of
        Some e \<Rightarrow> Inl e
      | None \<Rightarrow> process_repository (files w) repo_path)"

text \<open>A save whose exception is caught and printed: the store stays as it was.\<close>

definition store_after :: "store \<Rightarrow> py_exception + (bson \<times> store) \<Rightarrow> store" where
  "store_after s r = (case r of Inl _ \<Rightarrow> s | Inr (_, s') \<Rightarrow> s')"

text \<open>
  The vulnerability detection of the run: the report, absent when the analysis raised,
  and the store after the attempt to save the report.
\<close>

definition run_analysis ::
  "run_env \<Rightarrow> store \<Rightarrow> pystr \<Rightarrow> pystr \<Rightarrow> pystr \<Rightarrow> pystr \<Rightarrow> chunk list \<Rightarrow> report option \<times> store" where
  "run_analysis env s github_repo_name user_id github_id repo_id cs =
     (case analyze_repository env cs of
        Inl _ \<Rightarrow> (None, s)
      | Inr results \<Rightarrow>
          (Some (pipeline_report results),
           store_after s
             (save_vulnerability_report s user_id github_id repo_id github_repo_name results)))"

text \<open>The \<open>try\<close> block with its \<open>except\<close>.\<close>

definition run_body ::
  "run_env \<Rightarrow> run_world \<Rightarrow> pystr \<Rightarrow> pystr \<Rightarrow> pystr \<Rightarrow> pystr \<Rightarrow> pystr \<Rightarrow> run_result \<times> run_world" where
  "run_body env w github_repo_name user_id github_id repo_id repo_path =
     (case run_process env w repo_path of
        Inl e \<Rightarrow> (failure_result (S ''Error processing repository: '' @ exn_str e), w)
      | Inr cs \<Rightarrow>
          (let db1 = store_after (db w)
                       (save_pipeline_result (db w) user_id github_id repo_id github_repo_name
                          cs (Some repo_path));
               analysis = run_analysis env db1 github_repo_name user_id github_id repo_id cs
           in (\<lparr> res_success = True,
                  res_message = S ''Successfully processed repository: '' @ github_repo_name,
                  res_repo_path = Some repo_path,
                  res_total_chunks = Some (int (length cs)),
                  res_chunks = cs,
                  res_vulnerability_report = fst analysis \<rparr>,
               w \<lparr> db := snd analysis \<rparr>)))"

text \<open>The \<open>finally\<close> block.\<close>

definition cleanup :: "run_env \<Rightarrow> pystr \<Rightarrow> run_world \<Rightarrow> run_world" where
  "cleanup env cleanup_path w =
     (if files w cleanup_path \<noteq> None then
        (case rmtree_error env of
           None \<Rightarrow> w \<lparr> files := rmtree cleanup_path (files w),
                       rmtree_calls := rmtree_calls w @ [cleanup_path] \<rparr>
         | Some _ \<Rightarrow> w \<lparr> rmtree_calls := rmtree_calls w @ [cleanup_path] \<rparr>)
      else w)"

definition BASE_DIR :: pystr where
  "BASE_DIR = S ''github_repos''"

text \<open>\<open>base_dir / github_repo_name.split('/')[-1]\<close>.\<close>

definition repo_dir :: "pystr \<Rightarrow> pystr" where
  "repo_dir github_repo_name = path_join BASE_DIR (last (split_on SLASH github_repo_name))"

text \<open>
  The run up to the \<open>try\<close> block: the base directory is made, and the repository
  directory is reused if it exists and cloned otherwise. The result is the early return
  of a failed clone, or the repository path with the state the \<open>try\<close> block starts in.
\<close>

definition disk_at_start :: "run_world \<Rightarrow> file_system" where
  "disk_at_start w = mkdir_exist_ok BASE_DIR (files w)"

definition clone_attempt :: "run_env \<Rightarrow> run_world \<Rightarrow> pystr \<Rightarrow> pystr option \<Rightarrow> clone_result \<times> file_system" where
  "clone_attempt env w github_repo_name access_token =
     clone_repository env (disk_at_start w) github_repo_name
       (last (split_on SLASH github_repo_name)) BASE_DIR access_token"

definition run_start ::
  "run_env \<Rightarrow> run_world \<Rightarrow> pystr \<Rightarrow> pystr option
     \<Rightarrow> (run_result \<times> run_world) + (pystr \<times> run_world)" where
  "run_start env w github_repo_name access_token =
     (let w0 = w \<lparr> files := disk_at_start w \<rparr>;
          repo_path = repo_dir github_repo_name
      in if files w0 repo_path = None then
           (case clone_attempt env w github_repo_name access_token of
              (CloneFailed msg, fs1) \<Rightarrow>
                Inl (failure_result (S ''Failed to clone repository: '' @ msg),
                     w0 \<lparr> files := fs1 \<rparr>)
            | (CloneSucceeded p _, fs1) \<Rightarrow> Inr (p, w0 \<lparr> files := fs1 \<rparr>))
         else Inr (repo_path, w0))"

definition run_pipeline ::
  "run_env \<Rightarrow> run_world \<Rightarrow> pystr \<Rightarrow> pystr \<Rightarrow> pystr \<Rightarrow> pystr \<Rightarrow> pystr option
     \<Rightarrow> run_result \<times> run_world" where
  "run_pipeline env w github_repo_name user_id github_id repo_id access_token =
     (case run_start env w github_repo_name access_token of
        Inl early \<Rightarrow> early
      | Inr (cleanup_path, w1) \<Rightarrow>
          (let r = run_body env w1 github_repo_name user_id github_id repo_id cleanup_path
           in (fst r, cleanup env cleanup_path (snd r))))"

subsection \<open>Sample runs\<close>

definition sample_env :: "git_outcome \<Rightarrow> py_exception option \<Rightarrow> pystr option \<Rightarrow> run_env" where
  "sample_env g fault rm =
     \<lparr> git_clone = (\<lambda>url target. g), cloned_tree = sample_entries, process_fault = fault,
       analyze_repository = (\<lambda>cs. Inl (Exception (S ''analysis engine unreachable''))),
       rmtree_error = rm \<rparr>"



definition sample_world :: "file_system \<Rightarrow> run_world" where
  "sample_world fs = \<lparr> files = fs, db = sample_store, rmtree_calls = [] \<rparr>"

definition go_disk :: file_system where
  "go_disk =
     (\<lambda>p. if p = S ''github_repos/demo''
          then Some [Yield file_go]
          else None)"

section \<open>Properties of the chunker\<close>

lemma assemble_snoc:
  "assemble fp cid off (gs @ [g]) =
     assemble fp cid off gs @ [make_chunk fp (cid + int (length gs)) (off + int (length (concat gs))) g]"
  by (induction gs arbitrary: cid off) (simp_all add: algebra_simps)

lemma end_line_make_chunk: "end_line (make_chunk fp cid off ls) = off + int (length ls) - 1"
  by (simp add: make_chunk_def Let_def)

lemma start_line_make_chunk: "start_line (make_chunk fp cid off ls) = off"
  by (simp add: make_chunk_def Let_def)

lemma chunk_id_make_chunk: "chunk_id (make_chunk fp cid off ls) = cid"
  by (simp add: make_chunk_def Let_def)

lemma lines_size_snoc: "lines_size (ls @ [l]) = lines_size ls + line_size l"
  by (simp add: lines_size_def)

lemma tight_append_group:
  "tight (gs @ [a]) \<Longrightarrow> CHUNK_SIZE < lines_size a + line_size l \<Longrightarrow>
   tight (gs @ [a, l # ls])"
proof (induction gs rule: induct_list012)
  case 1
  then show ?case by simp
next
  case (2 x)
  then show ?case by simp
next
  case (3 x y zs)
  then show ?case by simp
qed

lemma tight_extend_last:
  "tight (gs @ [a]) \<Longrightarrow> a \<noteq> [] \<Longrightarrow> tight (gs @ [a @ [l]])"
proof (induction gs rule: induct_list012)
  case 1
  then show ?case by simp
next
  case (2 x)
  then show ?case by (cases a) simp_all
next
  case (3 x y zs)
  then show ?case by simp
qed

lemma tight_tl: "tight (g # gs) \<Longrightarrow> tight gs"
  by (cases gs) simp_all

lemma chunk_step_inv:
  assumes "chunker_inv fp gs st" and "chunker_tight gs st"
  shows "\<exists>gs'. chunker_inv fp gs' (chunk_step fp st line) \<and>
               chunker_tight gs' (chunk_step fp st line) \<and>
               current_chunk_lines (chunk_step fp st line) \<noteq> [] \<and>
               concat gs' @ current_chunk_lines (chunk_step fp st line)
                 = concat gs @ current_chunk_lines st @ [line]"
proof (cases "current_chunk_size st + line_size line > CHUNK_SIZE \<and> current_chunk_lines st \<noteq> []")
  case True
  let ?gs = "gs @ [current_chunk_lines st]"
  from True assms have "chunker_inv fp ?gs (chunk_step fp st line)"
    by (simp add: chunker_inv_def chunk_step_def Let_def line_size_def assemble_snoc
        end_line_make_chunk lines_size_def good_group_def)
  moreover from True have cur: "current_chunk_lines (chunk_step fp st line) = [line]"
    by (simp add: chunk_step_def Let_def line_size_def)
  moreover have "chunker_tight ?gs (chunk_step fp st line)"
  proof -
    from True assms(2) have t: "tight (gs @ [current_chunk_lines st])"
      by (simp add: chunker_tight_def)
    from True assms(1) have "CHUNK_SIZE < lines_size (current_chunk_lines st) + line_size line"
      by (simp add: chunker_inv_def)
    from tight_append_group[OF t this, of "[]"] show ?thesis
      by (simp add: chunker_tight_def cur)
  qed
  ultimately show ?thesis by (intro exI[of _ ?gs]) simp
next
  case False
  from False assms have "chunker_inv fp gs (chunk_step fp st line)"
    by (auto simp add: chunker_inv_def chunk_step_def Let_def line_size_def
        lines_size_def good_group_def)
  moreover from False have cur: "current_chunk_lines (chunk_step fp st line) = current_chunk_lines st @ [line]"
    by (simp add: chunk_step_def Let_def line_size_def)
  moreover have "chunker_tight gs (chunk_step fp st line)"
  proof (cases "current_chunk_lines st = []")
    case True
    with assms(2) have "gs = []" by (simp add: chunker_tight_def)
    with True show ?thesis by (simp add: chunker_tight_def cur)
  next
    case False
    with assms(2) have "tight (gs @ [current_chunk_lines st])" by (simp add: chunker_tight_def)
    from tight_extend_last[OF this False, of line] show ?thesis
      by (simp add: chunker_tight_def cur)
  qed
  ultimately show ?thesis by (intro exI[of _ gs]) simp
qed

lemma chunk_fold_inv:
  "chunker_inv fp gs st \<Longrightarrow> chunker_tight gs st \<Longrightarrow>
   \<exists>gs'. chunker_inv fp gs' (foldl (chunk_step fp) st ls) \<and>
         chunker_tight gs' (foldl (chunk_step fp) st ls) \<and>
         (ls \<noteq> [] \<longrightarrow> current_chunk_lines (foldl (chunk_step fp) st ls) \<noteq> []) \<and>
         concat gs' @ current_chunk_lines (foldl (chunk_step fp) st ls)
           = concat gs @ current_chunk_lines st @ ls"
proof (induction ls arbitrary: gs st rule: rev_induct)
  case Nil
  then show ?case by auto
next
  case (snoc l ls)
  from snoc.IH[OF snoc.prems] obtain gs1 where
    1: "chunker_inv fp gs1 (foldl (chunk_step fp) st ls)" and
    t1: "chunker_tight gs1 (foldl (chunk_step fp) st ls)" and
    2: "concat gs1 @ current_chunk_lines (foldl (chunk_step fp) st ls) = concat gs @ current_chunk_lines st @ ls"
    by blast
  from chunk_step_inv[OF 1 t1, of l] obtain gs2 where
    3: "chunker_inv fp gs2 (chunk_step fp (foldl (chunk_step fp) st ls) l)" and
    t3: "chunker_tight gs2 (chunk_step fp (foldl (chunk_step fp) st ls) l)" and
    4: "current_chunk_lines (chunk_step fp (foldl (chunk_step fp) st ls) l) \<noteq> []" and
    5: "concat gs2 @ current_chunk_lines (chunk_step fp (foldl (chunk_step fp) st ls) l)
          = concat gs1 @ current_chunk_lines (foldl (chunk_step fp) st ls) @ [l]"
    by blast
  have "concat gs2 @ current_chunk_lines (chunk_step fp (foldl (chunk_step fp) st ls) l)
          = concat gs @ current_chunk_lines st @ ls @ [l]"
    using 2 5 by (metis append.assoc)
  with 3 t3 4 show ?case
    by (intro exI[of _ gs2]) simp
qed

lemma chunker_inv_init: "chunker_inv fp [] chunker_init"
  by (simp add: chunker_inv_def chunker_init_def lines_size_def)

lemma chunker_tight_init: "chunker_tight [] chunker_init"
  by (simp add: chunker_tight_def chunker_init_def)

lemma chunk_lines_groups:
  "\<exists>gs. chunk_lines fp ls = assemble fp 1 1 gs \<and> concat gs = ls \<and> list_all good_group gs \<and>
        tight gs"
proof -
  let ?st = "foldl (chunk_step fp) chunker_init ls"
  from chunk_fold_inv[OF chunker_inv_init chunker_tight_init, of fp ls] obtain gs where
    1: "chunker_inv fp gs ?st" and
    t: "chunker_tight gs ?st" and
    2: "concat gs @ current_chunk_lines ?st = ls"
    by (auto simp: chunker_init_def)
  show ?thesis
  proof (cases "current_chunk_lines ?st = []")
    case True
    with t have "tight gs" by (simp add: chunker_tight_def)
    with True 1 2 show ?thesis
      by (intro exI[of _ gs]) (simp add: chunk_lines_def chunk_finish_def chunker_inv_def)
  next
    case False
    with t have "tight (gs @ [current_chunk_lines ?st])" by (simp add: chunker_tight_def)
    with False 1 2 show ?thesis
      by (intro exI[of _ "gs @ [current_chunk_lines ?st]"])
         (simp add: chunk_lines_def chunk_finish_def chunker_inv_def assemble_snoc)
  qed
qed

lemma split_nl_nonempty: "split_nl s \<noteq> []"
  by (induction s) (auto split: list.splits)

lemma length_assemble: "length (assemble fp cid off gs) = length gs"
  by (induction gs arbitrary: cid off) simp_all

lemma assemble_nth:
  "k < length gs \<Longrightarrow>
   assemble fp cid off gs ! k =
     make_chunk fp (cid + int k) (off + int (length (concat (take k gs)))) (gs ! k)"
proof (induction gs arbitrary: cid off k)
  case Nil
  then show ?case by simp
next
  case (Cons g gs)
  show ?case
  proof (cases k)
    case 0
    then show ?thesis by simp
  next
    case (Suc j)
    with Cons.prems have "j < length gs" by simp
    from Cons.IH[OF this] Suc show ?thesis by (simp add: algebra_simps)
  qed
qed

lemma group_slice:
  "k < length gs \<Longrightarrow>
   take (length (gs ! k)) (drop (length (concat (take k gs))) (concat gs)) = gs ! k"
proof -
  assume "k < length gs"
  then have "gs = take k gs @ gs ! k # drop (Suc k) gs"
    by (rule id_take_nth_drop)
  then have "concat gs = concat (take k gs) @ gs ! k @ concat (drop (Suc k) gs)"
    by (metis concat.simps(2) concat_append)
  then show ?thesis by simp
qed

lemma chunk_code_groups:
  "\<exists>gs. chunk_code fp code = assemble fp 1 1 gs \<and> concat gs = split_nl code \<and>
        list_all good_group gs \<and> gs \<noteq> [] \<and> tight gs"
proof -
  from chunk_lines_groups[of fp "split_nl code"] obtain gs where
    g: "chunk_lines fp (split_nl code) = assemble fp 1 1 gs" "concat gs = split_nl code"
       "list_all good_group gs" "tight gs" by blast
  from g(2) split_nl_nonempty[of code] have "gs \<noteq> []" by auto
  with g show ?thesis unfolding chunk_code_def by blast
qed

text \<open>
  Claim C10: for every file path and every content, the empty string included,
  \<open>chunk_code\<close> returns a non-empty list of chunks; on the empty content it returns
  exactly one chunk, with \<open>chunk_id\<close> 1, \<open>start_line\<close> 1 and \<open>end_line\<close> 1.
\<close>

theorem chunk_code_nonempty:
  "chunk_code fp code \<noteq> [] \<and>
   map (\<lambda>c. (chunk_id c, start_line c, end_line c)) (chunk_code fp []) = [(1, 1, 1)]"
proof
  from chunk_code_groups[of fp code] obtain gs where
    "chunk_code fp code = assemble fp 1 1 gs" "gs \<noteq> []" by blast
  then show "chunk_code fp code \<noteq> []"
    by (metis length_assemble length_0_conv)
  show "map (\<lambda>c. (chunk_id c, start_line c, end_line c)) (chunk_code fp []) = [(1, 1, 1)]"
    by (simp add: chunk_code_def chunk_lines_def chunk_finish_def chunk_step_def
        chunker_init_def make_chunk_def Let_def)
qed

lemma chunk_code_ranges:
  "(let cs = chunk_code fp code; n = int (length (split_nl code)) in
      cs \<noteq> [] \<and> start_line (hd cs) = 1 \<and> end_line (last cs) = n \<and>
      (\<forall>k < length cs. chunk_id (cs ! k) = int k + 1 \<and> start_line (cs ! k) \<le> end_line (cs ! k)) \<and>
      (\<forall>k. Suc k < length cs \<longrightarrow> start_line (cs ! Suc k) = end_line (cs ! k) + 1))"
proof -
  from chunk_code_groups[of fp code] obtain gs where
    cs: "chunk_code fp code = assemble fp 1 1 gs" and
    cat: "concat gs = split_nl code" and
    good: "list_all good_group gs" and
    ne: "gs \<noteq> []" by blast
  let ?cs = "assemble fp 1 1 gs"
  have len: "length ?cs = length gs" by (rule length_assemble)
  have nth: "\<And>k. k < length gs \<Longrightarrow>
      ?cs ! k = make_chunk fp (1 + int k) (1 + int (length (concat (take k gs)))) (gs ! k)"
    by (rule assemble_nth)
  have gne: "\<And>k. k < length gs \<Longrightarrow> gs ! k \<noteq> []"
    using good by (simp add: list_all_length good_group_def)
  have 1: "?cs \<noteq> []" using ne len by (metis length_0_conv)
  have 2: "start_line (hd ?cs) = 1"
    using ne by (cases gs) (simp_all add: start_line_make_chunk)
  have "last ?cs = ?cs ! (length gs - 1)"
    using 1 len by (simp add: last_conv_nth)
  also have "\<dots> = make_chunk fp (1 + int (length gs - 1))
      (1 + int (length (concat (take (length gs - 1) gs)))) (gs ! (length gs - 1))"
    using ne by (intro nth) simp
  finally have "end_line (last ?cs) =
      int (length (concat (take (length gs - 1) gs))) + int (length (gs ! (length gs - 1)))"
    by (simp add: end_line_make_chunk)
  also have "\<dots> = int (length (concat (take (length gs - 1) gs @ [gs ! (length gs - 1)])))"
    by simp
  also have "take (length gs - 1) gs @ [gs ! (length gs - 1)] = gs"
    using ne by (metis append_butlast_last_id butlast_conv_take last_conv_nth)
  finally have 3: "end_line (last ?cs) = int (length (split_nl code))"
    using cat by simp
  have 4: "\<forall>k < length ?cs. chunk_id (?cs ! k) = int k + 1 \<and> start_line (?cs ! k) \<le> end_line (?cs ! k)"
  proof (intro allI impI)
    fix k assume "k < length ?cs"
    then have k: "k < length gs" using len by simp
    from gne[OF k] have "1 \<le> int (length (gs ! k))" by (cases "gs ! k") simp_all
    then show "chunk_id (?cs ! k) = int k + 1 \<and> start_line (?cs ! k) \<le> end_line (?cs ! k)"
      by (simp add: nth[OF k] chunk_id_make_chunk start_line_make_chunk end_line_make_chunk)
  qed
  have 5: "\<forall>k. Suc k < length ?cs \<longrightarrow> start_line (?cs ! Suc k) = end_line (?cs ! k) + 1"
  proof (intro allI impI)
    fix k assume "Suc k < length ?cs"
    then have sk: "Suc k < length gs" and k: "k < length gs" using len by simp_all
    have "take (Suc k) gs = take k gs @ [gs ! k]"
      using k by (rule take_Suc_conv_app_nth)
    then show "start_line (?cs ! Suc k) = end_line (?cs ! k) + 1"
      by (simp add: nth[OF k] nth[OF sk] start_line_make_chunk end_line_make_chunk)
  qed
  from 1 2 3 4 5 show ?thesis unfolding cs Let_def by blast
qed

lemma split_nl_plain: "NL \<notin> set xs \<Longrightarrow> split_nl xs = [xs]"
  by (induction xs) auto

lemma split_nl_append_nl: "NL \<notin> set xs \<Longrightarrow> split_nl (xs @ NL # ys) = xs # split_nl ys"
proof (induction xs)
  case Nil
  then show ?case by simp
next
  case (Cons x xs)
  then show ?case by (auto split: list.splits)
qed

lemma length_a_line: "length (a_line n) = n"
  by (simp add: a_line_def)

lemma NL_a_line: "NL \<notin> set (a_line n)"
  by (simp add: a_line_def NL_def)

lemma split_four: "split_nl four_chunk_content =
   [a_line 6000, a_line 6000, a_line 6000, a_line 6000, a_line 996]"
  by (simp add: four_chunk_content_def split_nl_append_nl split_nl_plain NL_a_line)

lemma byte_size_append: "byte_size (xs @ ys) = byte_size xs + byte_size ys"
  by (simp add: byte_size_def)

lemma byte_size_Cons: "byte_size (x # xs) = utf8_len x + byte_size xs"
  by (simp add: byte_size_def)

lemma byte_size_replicate: "byte_size (replicate n c) = n * utf8_len c"
  by (induction n) (simp_all add: byte_size_def)

lemma chunk_four:
  "map (\<lambda>c. (chunk_id c, start_line c, end_line c))
     (chunk_lines fp [a_line 6000, a_line 6000, a_line 6000, a_line 6000, a_line 996])
   = [(1,1,1),(2,2,2),(3,3,3),(4,4,5)]"
  by (simp add: chunk_lines_def chunk_finish_def chunk_step_def chunker_init_def
      make_chunk_def Let_def length_a_line CHUNK_SIZE_def)

text \<open>
  Claim C3 says that a content of 25,000 bytes with no line over 12,000 bytes gives
  exactly 3 chunks. Four lines of 6,000 letters and one of 996 are 25,000 characters
  and 25,000 bytes, no line is longer than 6,000, and \<open>chunk_code\<close> returns 4 chunks:
  two lines of 6,001 characters (newline counted) do not fit into 12,000.
\<close>

theorem chunk_code_25000_counterexample:
  "length four_chunk_content = 25000 \<and> byte_size four_chunk_content = 25000 \<and>
   split_nl four_chunk_content = [a_line 6000, a_line 6000, a_line 6000, a_line 6000, a_line 996] \<and>
   length (a_line 6000) = 6000 \<and> length (a_line 996) = 996 \<and>
   length (chunk_code (S ''a.py'') four_chunk_content) = 4"
proof -
  have "length (map (\<lambda>c. (chunk_id c, start_line c, end_line c))
     (chunk_lines (S ''a.py'') [a_line 6000, a_line 6000, a_line 6000, a_line 6000, a_line 996])) = 4"
    unfolding chunk_four by simp
  then have "length (chunk_code (S ''a.py'') four_chunk_content) = 4"
    by (simp add: chunk_code_def split_four)
  moreover have "length four_chunk_content = 25000"
    by (simp add: four_chunk_content_def length_a_line)
  moreover have "byte_size four_chunk_content = 25000"
    by (simp add: four_chunk_content_def a_line_def byte_size_append byte_size_Cons
        byte_size_replicate utf8_len_def NL_def)
  ultimately show ?thesis by (simp add: split_four length_a_line)
qed

lemma line_partition_aux: "line_partition (chunk_code fp code) (int (length (split_nl code)))"
  using chunk_code_ranges[of fp code] by (simp add: line_partition_def Let_def)

lemma lines_size_split: "lines_size (split_nl code) = int (length code) + 1"
  by (induction code) (auto simp: lines_size_def line_size_def split: list.splits)

lemma lines_size_append: "lines_size (xs @ ys) = lines_size xs + lines_size ys"
  by (simp add: lines_size_def)

lemma lines_size_concat: "lines_size (concat gs) = sum_list (map lines_size gs)"
  by (induction gs) (simp_all add: lines_size_append, simp add: lines_size_def)

lemma lines_size_nonneg: "0 \<le> lines_size g"
  by (induction g) (simp_all add: lines_size_def line_size_def)

lemma line_size_le_lines_size: "l \<in> set g \<Longrightarrow> line_size l \<le> lines_size g"
proof (induction g)
  case Nil
  then show ?case by simp
next
  case (Cons x g)
  have "0 \<le> lines_size g" by (rule lines_size_nonneg)
  moreover have "0 \<le> line_size x" by (simp add: line_size_def)
  moreover have "lines_size (x # g) = line_size x + lines_size g" by (simp add: lines_size_def)
  ultimately show ?case using Cons by auto
qed

lemma concat_index:
  "i < length (concat gs) \<Longrightarrow>
   \<exists>k < length gs. length (concat (take k gs)) \<le> i \<and>
       i < length (concat (take k gs)) + length (gs ! k) \<and>
       concat gs ! i = gs ! k ! (i - length (concat (take k gs)))"
proof (induction gs arbitrary: i)
  case Nil
  then show ?case by simp
next
  case (Cons g gs)
  show ?case
  proof (cases "i < length g")
    case True
    then show ?thesis by (intro exI[of _ 0]) (simp add: nth_append)
  next
    case False
    with Cons.prems have "i - length g < length (concat gs)" by simp
    from Cons.IH[OF this] obtain k where k: "k < length gs"
      "length (concat (take k gs)) \<le> i - length g"
      "i - length g < length (concat (take k gs)) + length (gs ! k)"
      "concat gs ! (i - length g) = gs ! k ! (i - length g - length (concat (take k gs)))"
      by blast
    with False show ?thesis
      by (intro exI[of _ "Suc k"]) (auto simp: nth_append)
  qed
qed

lemma chunk_code_structure:
  "\<exists>gs. length (chunk_code fp code) = length gs \<and> concat gs = split_nl code \<and>
        list_all good_group gs \<and>
        (\<forall>k < length gs.
           start_line (chunk_code fp code ! k) = 1 + int (length (concat (take k gs))) \<and>
           end_line (chunk_code fp code ! k) = int (length (concat (take k gs))) + int (length (gs ! k)) \<and>
           chunk_source_lines code (chunk_code fp code ! k) = gs ! k)"
proof -
  from chunk_code_groups[of fp code] obtain gs where
    cs: "chunk_code fp code = assemble fp 1 1 gs" and
    cat: "concat gs = split_nl code" and
    good: "list_all good_group gs" by blast
  have "\<forall>k < length gs.
           start_line (chunk_code fp code ! k) = 1 + int (length (concat (take k gs))) \<and>
           end_line (chunk_code fp code ! k) = int (length (concat (take k gs))) + int (length (gs ! k)) \<and>
           chunk_source_lines code (chunk_code fp code ! k) = gs ! k"
  proof (intro allI impI)
    fix k assume k: "k < length gs"
    have c: "chunk_code fp code ! k =
        make_chunk fp (1 + int k) (1 + int (length (concat (take k gs)))) (gs ! k)"
      unfolding cs using k by (rule assemble_nth)
    have s: "start_line (chunk_code fp code ! k) = 1 + int (length (concat (take k gs)))"
      by (simp add: c start_line_make_chunk)
    have e: "end_line (chunk_code fp code ! k) = int (length (concat (take k gs))) + int (length (gs ! k))"
      by (simp add: c end_line_make_chunk)
    have "chunk_source_lines code (chunk_code fp code ! k) =
        take (length (gs ! k)) (drop (length (concat (take k gs))) (concat gs))"
      unfolding chunk_source_lines_def s e cat by simp
    with s e group_slice[OF k] show
      "start_line (chunk_code fp code ! k) = 1 + int (length (concat (take k gs))) \<and>
       end_line (chunk_code fp code ! k) = int (length (concat (take k gs))) + int (length (gs ! k)) \<and>
       chunk_source_lines code (chunk_code fp code ! k) = gs ! k"
      by simp
  qed
  with cs cat good show ?thesis by (intro exI[of _ gs]) (simp add: length_assemble)
qed

lemma chunk_code_size_bound_aux1:
  assumes "c \<in> set (chunk_code fp code)"
  shows "chunk_chars code c \<le> CHUNK_SIZE \<or> (start_line c = end_line c \<and> CHUNK_SIZE < chunk_chars code c)"
proof -
  from chunk_code_structure[of fp code] obtain gs where
    len: "length (chunk_code fp code) = length gs" and
    good: "list_all good_group gs" and
    st: "\<forall>k < length gs.
           start_line (chunk_code fp code ! k) = 1 + int (length (concat (take k gs))) \<and>
           end_line (chunk_code fp code ! k) = int (length (concat (take k gs))) + int (length (gs ! k)) \<and>
           chunk_source_lines code (chunk_code fp code ! k) = gs ! k" by blast
  from assms obtain k where k: "k < length gs" and c: "c = chunk_code fp code ! k"
    using len by (metis in_set_conv_nth)
  from good k have g: "good_group (gs ! k)" by (simp add: list_all_length)
  from st k c have s: "start_line c = 1 + int (length (concat (take k gs)))"
    and e: "end_line c = int (length (concat (take k gs))) + int (length (gs ! k))"
    and l: "chunk_source_lines code c = gs ! k" by simp_all
  from g have "lines_size (gs ! k) \<le> CHUNK_SIZE \<or> length (gs ! k) = 1"
    by (simp add: good_group_def)
  then show ?thesis
  proof
    assume "lines_size (gs ! k) \<le> CHUNK_SIZE"
    then show ?thesis by (simp add: chunk_chars_def l)
  next
    assume "length (gs ! k) = 1"
    then have "start_line c = end_line c" using s e by simp
    then show ?thesis by (cases "chunk_chars code c \<le> CHUNK_SIZE") simp_all
  qed
qed

lemma chunk_code_size_bound_aux2:
  assumes i: "i < length (split_nl code)" and big: "CHUNK_SIZE < line_size (split_nl code ! i)"
  shows "\<exists>c \<in> set (chunk_code fp code). start_line c = int i + 1 \<and> end_line c = int i + 1"
proof -
  from chunk_code_structure[of fp code] obtain gs where
    len: "length (chunk_code fp code) = length gs" and
    cat: "concat gs = split_nl code" and
    good: "list_all good_group gs" and
    st: "\<forall>k < length gs.
           start_line (chunk_code fp code ! k) = 1 + int (length (concat (take k gs))) \<and>
           end_line (chunk_code fp code ! k) = int (length (concat (take k gs))) + int (length (gs ! k)) \<and>
           chunk_source_lines code (chunk_code fp code ! k) = gs ! k" by blast
  from i cat have "i < length (concat gs)" by simp
  from concat_index[OF this] obtain k where k: "k < length gs"
    and lo: "length (concat (take k gs)) \<le> i"
    and hi: "i < length (concat (take k gs)) + length (gs ! k)"
    and el: "concat gs ! i = gs ! k ! (i - length (concat (take k gs)))" by blast
  from lo hi have "i - length (concat (take k gs)) < length (gs ! k)" by simp
  then have "concat gs ! i \<in> set (gs ! k)" unfolding el by (rule nth_mem)
  then have "line_size (split_nl code ! i) \<le> lines_size (gs ! k)"
    using cat line_size_le_lines_size by simp
  with big have "\<not> lines_size (gs ! k) \<le> CHUNK_SIZE" by simp
  moreover from good k have "good_group (gs ! k)" by (simp add: list_all_length)
  ultimately have one: "length (gs ! k) = 1" by (simp add: good_group_def)
  with lo hi have off: "length (concat (take k gs)) = i" by simp
  let ?c = "chunk_code fp code ! k"
  from st k one off have "start_line ?c = int i + 1 \<and> end_line ?c = int i + 1" by simp
  moreover have "?c \<in> set (chunk_code fp code)" using k len by simp
  ultimately show ?thesis by blast
qed

lemma group_size_le:
  assumes "good_group g" and "\<forall>l \<in> set g. length l \<le> 12000"
  shows "lines_size g \<le> 12001"
proof -
  from assms(1) have "lines_size g \<le> CHUNK_SIZE \<or> length g = 1" by (simp add: good_group_def)
  then show ?thesis
  proof
    assume "lines_size g \<le> CHUNK_SIZE" then show ?thesis by (simp add: CHUNK_SIZE_def)
  next
    assume "length g = 1"
    then obtain l where "g = [l]" by (cases g) auto
    with assms(2) show ?thesis by (simp add: lines_size_def line_size_def)
  qed
qed

lemma groups_size_le:
  "list_all good_group gs \<Longrightarrow> \<forall>l \<in> set (concat gs). length l \<le> 12000 \<Longrightarrow>
   lines_size (concat gs) \<le> 12001 * int (length gs)"
proof (induction gs)
  case Nil
  then show ?case by (simp add: lines_size_def)
next
  case (Cons g gs)
  from Cons.prems have "lines_size g \<le> 12001" by (intro group_size_le) auto
  moreover from Cons have "lines_size (concat gs) \<le> 12001 * int (length gs)" by auto
  ultimately show ?case by (simp add: lines_size_append algebra_simps)
qed

lemma chunk_code_25000_aux:
  assumes "length code = 25000" and "\<forall>l \<in> set (split_nl code). length l \<le> 12000"
  shows "3 \<le> length (chunk_code fp code)"
proof -
  from chunk_code_groups[of fp code] obtain gs where
    cs: "chunk_code fp code = assemble fp 1 1 gs" and
    cat: "concat gs = split_nl code" and
    good: "list_all good_group gs" by blast
  from groups_size_le[OF good] assms(2) cat
  have "lines_size (split_nl code) \<le> 12001 * int (length gs)" by simp
  with assms(1) have "25001 \<le> 12001 * int (length gs)" by (simp add: lines_size_split)
  have "\<not> length gs \<le> 2"
  proof
    assume "length gs \<le> 2"
    then have "int (length gs) \<le> 2" by simp
    then have "12001 * int (length gs) \<le> 12001 * 2" by (intro mult_left_mono) simp_all
    with \<open>25001 \<le> 12001 * int (length gs)\<close> show False by simp
  qed
  then have "3 \<le> length gs" by simp
  then show ?thesis by (simp add: cs length_assemble)
qed

lemma length_e_line: "length (e_line n) = n"
  by (simp add: e_line_def)

lemma NL_e_line: "NL \<notin> set (e_line n)"
  by (simp add: e_line_def NL_def)

lemma byte_size_e_line: "byte_size (e_line n) = 2 * n"
  by (simp add: e_line_def byte_size_replicate utf8_len_def)

lemma byte_size_a_line: "byte_size (a_line n) = n"
  by (simp add: a_line_def byte_size_replicate utf8_len_def)

lemma split_two: "split_nl two_chunk_content = [a_line 11999, a_line 5]"
  by (simp add: two_chunk_content_def split_nl_append_nl split_nl_plain NL_a_line)

lemma split_oversized: "split_nl oversized_content = [a_line 12000, a_line 5]"
  by (simp add: oversized_content_def split_nl_append_nl split_nl_plain NL_a_line)

lemma split_three: "split_nl three_chunk_content = [a_line 11999, a_line 11999, a_line 1000]"
  by (simp add: three_chunk_content_def split_nl_append_nl split_nl_plain NL_a_line)

lemma split_accented: "split_nl accented_content = [e_line 5000, e_line 5000]"
  by (simp add: accented_content_def split_nl_append_nl split_nl_plain NL_e_line)

lemmas chunk_eval = chunk_code_def chunk_lines_def chunk_finish_def chunk_step_def chunker_init_def
      Let_def CHUNK_SIZE_def length_a_line length_e_line
      start_line_make_chunk end_line_make_chunk chunk_id_make_chunk

lemma chunks_two:
  "chunk_code fp two_chunk_content =
     [make_chunk fp 1 1 [a_line 11999], make_chunk fp 2 2 [a_line 5]]"
  by (simp add: split_two chunk_eval)

lemma chunks_oversized:
  "chunk_code fp oversized_content =
     [make_chunk fp 1 1 [a_line 12000], make_chunk fp 2 2 [a_line 5]]"
  by (simp add: split_oversized chunk_eval)

lemma chunks_three:
  "chunk_code fp three_chunk_content =
     [make_chunk fp 1 1 [a_line 11999], make_chunk fp 2 2 [a_line 11999], make_chunk fp 3 3 [a_line 1000]]"
  by (simp add: split_three chunk_eval)

lemma chunks_accented:
  "chunk_code fp accented_content = [make_chunk fp 1 1 [e_line 5000, e_line 5000]]"
  by (simp add: split_accented chunk_eval)

text \<open>
  Claim C1: for every file path and every content, the line ranges of the chunks that
  \<open>chunk_code\<close> returns partition \<open>1..N\<close>, where \<open>N\<close> is the number of lines the
  content splits into: the first chunk starts at line 1, the last ends at line \<open>N\<close>,
  chunk ids start at 1 and go up by 1, no range is empty, and each chunk starts on the
  line after the end of the chunk before it.
\<close>

theorem chunk_code_partition:
  "line_partition (chunk_code fp code) (int (length (split_nl code)))"
  by (rule line_partition_aux)

text \<open>The same at a content of two chunks: ids 1 and 2, the second starting where the
  first ends.\<close>

theorem chunk_code_partition_witness:
  "Suc 0 < length (chunk_code (S ''a.py'') two_chunk_content) \<and>
   chunk_id (chunk_code (S ''a.py'') two_chunk_content ! 0) = 1 \<and>
   chunk_id (chunk_code (S ''a.py'') two_chunk_content ! Suc 0) = 2 \<and>
   start_line (chunk_code (S ''a.py'') two_chunk_content ! Suc 0)
     = end_line (chunk_code (S ''a.py'') two_chunk_content ! 0) + 1"
proof -
  have "length (chunk_code (S ''a.py'') two_chunk_content) = 2"
    by (simp add: chunks_two)
  with chunk_code_partition[of "S ''a.py''" two_chunk_content] show ?thesis
    by (simp add: line_partition_def)
qed

lemma snippet_accented:
  "code_snippet (make_chunk (S ''a.py'') 1 1 [e_line 5000, e_line 5000]) =
     S ''### FILE: a.py'' @ [NL] @ S ''### LINES: 1-2'' @ [NL] @
     S ''# 1: '' @ e_line 5000 @ [NL] @ S ''# 2: '' @ e_line 5000"
  by (simp add: make_chunk_def Let_def str_int_def str_nat.simps S_def)

text \<open>
  Claim C2 bounds the size of a chunk in bytes. The loop counts characters: two lines
  of 5,000 accented letters are 10,002 characters with their newlines and stay in one
  chunk (lines 1 to 2), which is 20,002 bytes of source text, more than \<open>CHUNK_SIZE\<close>,
  and is not a single line. The annotated text of the chunk is 20,041 bytes.
\<close>

theorem chunk_code_size_bound_counterexample:
  "length (chunk_code (S ''a.py'') accented_content) = 1 \<and>
   start_line (hd (chunk_code (S ''a.py'') accented_content)) = 1 \<and>
   end_line (hd (chunk_code (S ''a.py'') accented_content)) = 2 \<and>
   chunk_bytes accented_content (hd (chunk_code (S ''a.py'') accented_content)) = 20002 \<and>
   CHUNK_SIZE < chunk_bytes accented_content (hd (chunk_code (S ''a.py'') accented_content)) \<and>
   byte_size (code_snippet (hd (chunk_code (S ''a.py'') accented_content))) = 20041"
proof -
  let ?c = "make_chunk (S ''a.py'') 1 1 [e_line 5000, e_line 5000]"
  have cs: "chunk_code (S ''a.py'') accented_content = [?c]" by (rule chunks_accented)
  have src: "chunk_source_lines accented_content ?c = [e_line 5000, e_line 5000]"
    by (simp add: chunk_source_lines_def split_accented start_line_make_chunk end_line_make_chunk)
  have b: "chunk_bytes accented_content ?c = 20002"
    by (simp add: chunk_bytes_def src byte_size_append byte_size_e_line byte_size_Cons
        utf8_len_def NL_def) (simp add: byte_size_def)
  have s: "byte_size (code_snippet ?c) = 20041"
    unfolding snippet_accented
    by (simp add: byte_size_append byte_size_Cons byte_size_e_line)
       (simp add: byte_size_def S_def NL_def utf8_len_def)
  from b s show ?thesis
    by (simp add: cs start_line_make_chunk end_line_make_chunk CHUNK_SIZE_def)
qed

lemma set_split_nl: "set (concat (split_nl code)) \<subseteq> set code"
proof (induction code)
  case Nil
  then show ?case by simp
next
  case (Cons c cs)
  show ?case
  proof (cases "split_nl cs")
    case Nil
    then show ?thesis by simp
  next
    case (Cons l ls)
    with Cons.IH have "set l \<subseteq> set cs" "set (concat ls) \<subseteq> set cs" by simp_all
    with Cons show ?thesis by auto
  qed
qed

lemma byte_size_ascii: "\<forall>x \<in> set l. x < 128 \<Longrightarrow> byte_size l = length l"
  by (induction l) (simp_all add: byte_size_def utf8_len_def)

lemma chunk_bytes_ascii:
  assumes "\<forall>x \<in> set code. x < 128"
  shows "chunk_bytes code c = chunk_chars code c"
proof -
  have sub: "set (chunk_source_lines code c) \<subseteq> set (split_nl code)"
    unfolding chunk_source_lines_def by (meson set_take_subset set_drop_subset subset_trans)
  have "\<And>l. l \<in> set (chunk_source_lines code c) \<Longrightarrow> int (byte_size (l @ [NL])) = line_size l"
  proof -
    fix l assume "l \<in> set (chunk_source_lines code c)"
    with sub have "l \<in> set (split_nl code)" by blast
    then have "set l \<subseteq> set code" using set_split_nl[of code] by auto
    with assms have "\<forall>x \<in> set l. x < 128" by blast
    then show "int (byte_size (l @ [NL])) = line_size l"
      by (simp add: byte_size_append byte_size_ascii line_size_def)
         (simp add: byte_size_def utf8_len_def NL_def)
  qed
  then show ?thesis
    unfolding chunk_bytes_def chunk_chars_def lines_size_def
    by (intro arg_cong[where f = sum_list] map_cong) simp_all
qed

text \<open>
  Claim C2, amended: measured as the loop measures it, in characters with each line
  counted with its newline, no chunk is larger than \<open>CHUNK_SIZE\<close> unless it is a single
  line that is itself larger than \<open>CHUNK_SIZE\<close>; every such line is a chunk of its own;
  and for a content of ASCII characters only, the size in bytes is the size in
  characters, so the bound holds in bytes there.
\<close>

theorem chunk_code_size_bound:
  "(\<forall>c \<in> set (chunk_code fp code).
      chunk_chars code c \<le> CHUNK_SIZE \<or>
      (start_line c = end_line c \<and> CHUNK_SIZE < chunk_chars code c)) \<and>
   (\<forall>i < length (split_nl code).
      CHUNK_SIZE < line_size (split_nl code ! i) \<longrightarrow>
      (\<exists>c \<in> set (chunk_code fp code). start_line c = int i + 1 \<and> end_line c = int i + 1)) \<and>
   ((\<forall>x \<in> set code. x < 128) \<longrightarrow>
      (\<forall>c \<in> set (chunk_code fp code). chunk_bytes code c = chunk_chars code c))"
  using chunk_code_size_bound_aux1[of _ fp code] chunk_code_size_bound_aux2[of _ code fp]
    chunk_bytes_ascii[of code]
  by blast

lemma a_line_ascii: "\<forall>x \<in> set (a_line n). x < 128"
  by (simp add: a_line_def)

text \<open>At a content whose first line has 12,000 letters: that line is chunk 1 alone and
  larger than \<open>CHUNK_SIZE\<close>, the second chunk is within the bound.\<close>

theorem chunk_code_size_bound_witness:
  "hd (chunk_code (S ''a.py'') oversized_content) \<in> set (chunk_code (S ''a.py'') oversized_content) \<and>
   start_line (hd (chunk_code (S ''a.py'') oversized_content)) = 1 \<and>
   end_line (hd (chunk_code (S ''a.py'') oversized_content)) = 1 \<and>
   CHUNK_SIZE < chunk_chars oversized_content (hd (chunk_code (S ''a.py'') oversized_content)) \<and>
   last (chunk_code (S ''a.py'') oversized_content) \<in> set (chunk_code (S ''a.py'') oversized_content) \<and>
   chunk_chars oversized_content (last (chunk_code (S ''a.py'') oversized_content)) \<le> CHUNK_SIZE \<and>
   0 < length (split_nl oversized_content) \<and>
   CHUNK_SIZE < line_size (split_nl oversized_content ! 0) \<and>
   (\<exists>c \<in> set (chunk_code (S ''a.py'') oversized_content). start_line c = 1 \<and> end_line c = 1) \<and>
   list_all (\<lambda>x. x < 128) oversized_content \<and>
   chunk_bytes oversized_content (hd (chunk_code (S ''a.py'') oversized_content))
     = chunk_chars oversized_content (hd (chunk_code (S ''a.py'') oversized_content))"
proof -
  let ?cs = "chunk_code (S ''a.py'') oversized_content"
  have cs: "?cs = [make_chunk (S ''a.py'') 1 1 [a_line 12000], make_chunk (S ''a.py'') 2 2 [a_line 5]]"
    by (rule chunks_oversized)
  have big: "CHUNK_SIZE < line_size (split_nl oversized_content ! 0)"
    by (simp add: split_oversized line_size_def length_a_line CHUNK_SIZE_def)
  have ascii: "\<forall>x \<in> set oversized_content. x < 128"
    using a_line_ascii[of 12000] a_line_ascii[of 5] by (auto simp: oversized_content_def NL_def)
  have h: "hd ?cs \<in> set ?cs" and l: "last ?cs \<in> set ?cs" by (simp_all add: cs)
  have small: "chunk_chars oversized_content (last ?cs) \<le> CHUNK_SIZE"
    by (simp add: cs chunk_chars_def chunk_source_lines_def split_oversized
        start_line_make_chunk end_line_make_chunk lines_size_def line_size_def length_a_line
        CHUNK_SIZE_def)
  have bigc: "CHUNK_SIZE < chunk_chars oversized_content (hd ?cs)"
    by (simp add: cs chunk_chars_def chunk_source_lines_def split_oversized
        start_line_make_chunk end_line_make_chunk lines_size_def line_size_def length_a_line
        CHUNK_SIZE_def)
  have se: "start_line (hd ?cs) = 1 \<and> end_line (hd ?cs) = 1"
    by (simp add: cs start_line_make_chunk end_line_make_chunk)
  have len: "0 < length (split_nl oversized_content)" by (simp add: split_oversized)
  from chunk_code_size_bound[of "S ''a.py''" oversized_content] h l big bigc ascii small se len
  show ?thesis by (auto simp: CHUNK_SIZE_def list_all_iff)
qed

lemma tight_pairs_size:
  "tight gs \<Longrightarrow> list_all good_group gs \<Longrightarrow>
   12001 * int (length gs div 2) \<le> lines_size (concat gs)"
proof (induction gs rule: induct_list012)
  case 1
  then show ?case by (simp add: lines_size_def)
next
  case (2 x)
  then show ?case by (simp add: lines_size_nonneg)
next
  case (3 a b zs)
  from "3.prems"(1) have t: "tight (b # zs)" by simp
  then have tz: "tight zs" by (rule tight_tl)
  from "3.prems"(2) have gz: "list_all good_group zs" by simp
  from "3.IH"(1)[OF tz gz] have ih: "12001 * int (length zs div 2) \<le> lines_size (concat zs)" .
  from "3.prems"(2) have "b \<noteq> []" by (simp add: good_group_def)
  then obtain l ls where b: "b = l # ls" by (cases b) auto
  with "3.prems"(1) have "CHUNK_SIZE < lines_size a + line_size l" by simp
  moreover have "line_size l \<le> lines_size b"
    using b by (intro line_size_le_lines_size) simp
  ultimately have "12001 \<le> lines_size a + lines_size b" by (simp add: CHUNK_SIZE_def)
  with ih have "12001 + 12001 * int (length zs div 2)
      \<le> lines_size a + lines_size b + lines_size (concat zs)" by simp
  then show ?case by (simp add: lines_size_append algebra_simps)
qed

lemma chunk_code_25000_upper:
  assumes "length code = 25000"
  shows "length (chunk_code fp code) \<le> 5"
proof -
  from chunk_code_groups[of fp code] obtain gs where
    cs: "chunk_code fp code = assemble fp 1 1 gs" and
    cat: "concat gs = split_nl code" and
    good: "list_all good_group gs" and
    t: "tight gs" by blast
  from tight_pairs_size[OF t good] cat assms
  have le: "12001 * int (length gs div 2) \<le> 25001" by (simp add: lines_size_split)
  have "\<not> 3 \<le> length gs div 2"
  proof
    assume "3 \<le> length gs div 2"
    then have "3 \<le> int (length gs div 2)" by simp
    then have "12001 * 3 \<le> 12001 * int (length gs div 2)" by (intro mult_left_mono) simp_all
    with le show False by simp
  qed
  then have "length gs div 2 \<le> 2" by simp
  then have "length gs \<le> 5" by simp
  then show ?thesis by (simp add: cs length_assemble)
qed

text \<open>
  Claim C3, amended: for every content of 25,000 characters in which no line is longer
  than 12,000 characters, \<open>chunk_code\<close> returns at least 3 and at most 5 chunks, and their
  line ranges are contiguous, do not overlap and cover exactly the lines of the content.
\<close>

theorem chunk_code_25000:
  assumes "length code = 25000" and "\<forall>l \<in> set (split_nl code). length l \<le> 12000"
  shows "3 \<le> length (chunk_code fp code) \<and> length (chunk_code fp code) \<le> 5 \<and>
         line_partition (chunk_code fp code) (int (length (split_nl code)))"
  using chunk_code_25000_aux[OF assms] chunk_code_25000_upper[OF assms(1)] line_partition_aux
  by simp

lemma split_five:
  "split_nl five_chunk_content = [[], a_line 11999, [], a_line 11999, a_line 998]"
proof -
  have "split_nl five_chunk_content =
      [] # split_nl (a_line 11999 @ NL # NL # a_line 11999 @ NL # a_line 998)"
    by (simp add: five_chunk_content_def)
  also have "split_nl (a_line 11999 @ NL # NL # a_line 11999 @ NL # a_line 998) =
      a_line 11999 # split_nl (NL # a_line 11999 @ NL # a_line 998)"
    by (simp add: split_nl_append_nl NL_a_line)
  also have "split_nl (NL # a_line 11999 @ NL # a_line 998) =
      [] # split_nl (a_line 11999 @ NL # a_line 998)"
    by simp
  also have "split_nl (a_line 11999 @ NL # a_line 998) = [a_line 11999, a_line 998]"
    by (simp add: split_nl_append_nl split_nl_plain NL_a_line)
  finally show ?thesis .
qed

lemma chunks_five:
  "chunk_code fp five_chunk_content =
     [make_chunk fp 1 1 [[]], make_chunk fp 2 2 [a_line 11999], make_chunk fp 3 3 [[]],
      make_chunk fp 4 4 [a_line 11999], make_chunk fp 5 5 [a_line 998]]"
  by (simp add: split_five chunk_eval)

text \<open>
  At two lines of 11,999 letters and one of 1,000 the chunks are exactly three; at an
  empty line, a line of 11,999 letters, an empty line, a line of 11,999 letters and a
  line of 998 letters they are exactly five.
\<close>

theorem chunk_code_25000_witness:
  "length three_chunk_content = 25000 \<and>
   list_all (\<lambda>l. length l \<le> 12000) (split_nl three_chunk_content) \<and>
   length (chunk_code (S ''a.py'') three_chunk_content) = 3 \<and>
   line_partition (chunk_code (S ''a.py'') three_chunk_content) 3 \<and>
   length five_chunk_content = 25000 \<and>
   list_all (\<lambda>l. length l \<le> 12000) (split_nl five_chunk_content) \<and>
   length (chunk_code (S ''a.py'') five_chunk_content) = 5 \<and>
   line_partition (chunk_code (S ''a.py'') five_chunk_content) 5"
proof -
  have 1: "length three_chunk_content = 25000"
    by (simp add: three_chunk_content_def length_a_line)
  have 2: "\<forall>l \<in> set (split_nl three_chunk_content). length l \<le> 12000"
    by (simp add: split_three length_a_line)
  have 3: "length (chunk_code (S ''a.py'') three_chunk_content) = 3"
    by (simp add: chunks_three)
  have 4: "length five_chunk_content = 25000"
    by (simp add: five_chunk_content_def length_a_line)
  have 5: "\<forall>l \<in> set (split_nl five_chunk_content). length l \<le> 12000"
    by (simp add: split_five length_a_line)
  have 6: "length (chunk_code (S ''a.py'') five_chunk_content) = 5"
    by (simp add: chunks_five)
  from chunk_code_25000[OF 1 2, of "S ''a.py''"] chunk_code_25000[OF 4 5, of "S ''a.py''"]
    1 2 3 4 5 6 show ?thesis
    by (simp add: split_three split_five length_a_line)
qed

section \<open>Properties of the path filter\<close>

lemma lower_cp_dot: "lower_cp c = DOT \<longleftrightarrow> c = DOT"
  by (auto simp: lower_cp_def DOT_def)

lemma rfind_lower: "rfind DOT (lower s) = rfind DOT s"
proof -
  have "(\<lambda>x. x \<noteq> DOT) \<circ> lower_cp = (\<lambda>x. x \<noteq> DOT)"
    by (auto simp: fun_eq_iff lower_cp_dot)
  then have "length (takeWhile (\<lambda>x. x \<noteq> DOT) (rev (map lower_cp s)))
      = length (takeWhile (\<lambda>x. x \<noteq> DOT) (rev s))"
    by (simp add: rev_map takeWhile_map)
  moreover have "DOT \<in> set (map lower_cp s) \<longleftrightarrow> DOT \<in> set s"
    by (metis (no_types, lifting) image_iff lower_cp_dot list.set_map)
  ultimately show ?thesis by (simp add: rfind_def lower_def)
qed

lemma suffix_of_lower: "suffix_of (lower s) = lower (suffix_of s)"
proof -
  have len: "length (lower s) = length s" by (simp add: lower_def)
  show ?thesis
  proof (cases "0 < rfind DOT s \<and> rfind DOT s < int (length s) - 1")
    case True
    then have "suffix_of s = drop (nat (rfind DOT s)) s" by (simp add: suffix_of_def Let_def)
    moreover from True have "suffix_of (lower s) = drop (nat (rfind DOT s)) (lower s)"
      by (simp add: suffix_of_def Let_def rfind_lower len)
    ultimately show ?thesis by (simp add: lower_def drop_map)
  next
    case False
    then have "suffix_of s = []" by (auto simp add: suffix_of_def Let_def)
    moreover from False have "suffix_of (lower s) = []"
      by (auto simp add: suffix_of_def Let_def rfind_lower len)
    ultimately show ?thesis by (simp add: lower_def)
  qed
qed

lemma suffix_of_excluded_dir: "d \<in> EXCLUDED_DIRS \<Longrightarrow> suffix_of d = []"
  by (auto simp: EXCLUDED_DIRS_def S_def suffix_of_def rfind_def DOT_def)

lemma excluded_dir_no_suffix: "lower part \<in> EXCLUDED_DIRS \<Longrightarrow> suffix_of part = []"
proof -
  assume "lower part \<in> EXCLUDED_DIRS"
  then have "suffix_of (lower part) = []" by (rule suffix_of_excluded_dir)
  then have "lower (suffix_of part) = []" by (simp only: suffix_of_lower)
  then show ?thesis by (simp add: lower_def)
qed

lemma excluded_by_parts_dir:
  "\<exists>part \<in> set ps. lower part \<in> EXCLUDED_DIRS \<Longrightarrow> sfx = suffix_of nm \<Longrightarrow>
   excluded_by_parts nm sfx ps"
proof (induction ps)
  case Nil
  then show ?case by simp
next
  case (Cons p ps)
  show ?case
  proof (cases "lower p \<in> EXCLUDED_DIRS")
    case True
    then have "suffix_of p = []" by (rule excluded_dir_no_suffix)
    show ?thesis
    proof (cases "p = nm \<and> sfx \<noteq> []")
      case True
      with \<open>suffix_of p = []\<close> Cons.prems(2) show ?thesis by simp
    next
      case False
      with \<open>lower p \<in> EXCLUDED_DIRS\<close> show ?thesis by auto
    qed
  next
    case False
    with Cons.prems(1) have "\<exists>part \<in> set ps. lower part \<in> EXCLUDED_DIRS" by simp
    from Cons.IH[OF this Cons.prems(2)] show ?thesis by auto
  qed
qed

text \<open>
  Claim C8: for every relative path with at least one segment whose lower case is a
  configured excluded-directory name, \<open>should_exclude_path\<close> returns true, whatever the
  base name and the extension of the file are: the loop over the parts returns before
  the file-name and extension tests.
\<close>

theorem should_exclude_path_excluded_dir:
  "\<exists>part \<in> set p. lower part \<in> EXCLUDED_DIRS \<Longrightarrow> should_exclude_path p"
  using excluded_by_parts_dir[of p "path_suffix p" "path_name p"]
  by (simp add: should_exclude_path_def path_suffix_def Let_def)

lemma lower_Node_Modules: "lower (S ''Node_Modules'') \<in> EXCLUDED_DIRS"
  by (simp add: lower_def lower_cp_def S_def EXCLUDED_DIRS_def)

text \<open>A source file, \<open>app.py\<close>, under \<open>Node_Modules\<close>.\<close>

theorem should_exclude_path_excluded_dir_witness:
  "lower (S ''Node_Modules'') \<in> EXCLUDED_DIRS \<and>
   lower (suffix_of (S ''app.py'')) \<in> SOURCE_EXTENSIONS \<and>
   should_exclude_path [S ''Node_Modules'', S ''app.py'']"
proof -
  have "\<exists>part \<in> set [S ''Node_Modules'', S ''app.py'']. lower part \<in> EXCLUDED_DIRS"
    using lower_Node_Modules by simp
  from should_exclude_path_excluded_dir[OF this] lower_Node_Modules show ?thesis
    by (simp add: suffix_of_def rfind_def lower_def lower_cp_def S_def DOT_def SOURCE_EXTENSIONS_def)
qed

section \<open>Properties of the extractor\<close>

lemma extract_file_extracted:
  "extract_file acc e = (case extracted e of None \<Rightarrow> acc | Some (k, c) \<Rightarrow> dict_set k c acc)"
  by (simp add: extract_file_def extracted_def passes_filter_def Let_def split: sum.splits)

lemma map_of_dict_set: "map_of (dict_set k v d) = (map_of d)(k \<mapsto> v)"
  by (induction d) (auto simp: fun_eq_iff)

lemma keys_dict_set: "fst ` set (dict_set k v d) = insert k (fst ` set d)"
proof -
  have "fst ` set (dict_set k v d) = dom (map_of (dict_set k v d))"
    by (simp add: dom_map_of_conv_image_fst)
  also have "\<dots> = insert k (dom (map_of d))" by (simp add: map_of_dict_set)
  finally show ?thesis by (simp add: dom_map_of_conv_image_fst)
qed

lemma extract_fold_snoc:
  "extract_file (foldl extract_file acc es) e =
     (case extracted e of None \<Rightarrow> foldl extract_file acc es
      | Some (k, c) \<Rightarrow> dict_set k c (foldl extract_file acc es))"
  by (rule extract_file_extracted)

lemma extract_fold_keys:
  "fst ` set (foldl extract_file acc es) =
     fst ` set acc \<union> {k. \<exists>e \<in> set es. \<exists>c. extracted e = Some (k, c)}"
proof (induction es rule: rev_induct)
  case Nil
  then show ?case by simp
next
  case (snoc e es)
  show ?case
  proof (cases "extracted e")
    case None
    with snoc show ?thesis by (auto simp: extract_fold_snoc)
  next
    case (Some kc)
    obtain k c where "kc = (k, c)" by (cases kc)
    with Some snoc show ?thesis
      by (auto simp: extract_fold_snoc keys_dict_set)
  qed
qed

lemma extracted_key: "extracted e = Some (k, c) \<Longrightarrow> k = path_str (rel_parts e)"
  by (auto simp: extracted_def split: if_splits sum.splits)

lemma extract_fold_value:
  assumes "distinct (map (\<lambda>e. path_str (rel_parts e)) es)"
    and "e \<in> set es" and "extracted e = Some (k, c)"
  shows "map_of (foldl extract_file acc es) k = Some c"
  using assms
proof (induction es rule: rev_induct)
  case Nil
  then show ?case by simp
next
  case (snoc e' es)
  from snoc.prems(1) have d: "distinct (map (\<lambda>e. path_str (rel_parts e)) es)"
    and new: "path_str (rel_parts e') \<notin> (\<lambda>e. path_str (rel_parts e)) ` set es" by simp_all
  show ?case
  proof (cases "e = e'")
    case True
    with snoc.prems(3) show ?thesis
      by (simp add: extract_fold_snoc map_of_dict_set)
  next
    case False
    with snoc.prems(2) have in_es: "e \<in> set es" by simp
    from snoc.IH[OF d in_es snoc.prems(3)]
    have ih: "map_of (foldl extract_file acc es) k = Some c" .
    from extracted_key[OF snoc.prems(3)] in_es new
    have ne: "path_str (rel_parts e') \<noteq> k" by auto
    show ?thesis
    proof (cases "extracted e'")
      case None
      with ih show ?thesis by (simp add: extract_fold_snoc)
    next
      case (Some kc)
      obtain k' c' where kc: "kc = (k', c')" by (cases kc)
      with Some extracted_key[of e' k' c'] ne have "k' \<noteq> k" by simp
      with Some kc ih show ?thesis
        by (simp add: extract_fold_snoc map_of_dict_set)
    qed
  qed
qed

lemma extract_fold_skipped:
  assumes "distinct (map (\<lambda>e. path_str (rel_parts e)) es)"
    and "e \<in> set es" and "extracted e = None"
  shows "path_str (rel_parts e) \<notin> fst ` set (foldl extract_file [] es)"
proof
  assume "path_str (rel_parts e) \<in> fst ` set (foldl extract_file [] es)"
  then obtain e' c where e': "e' \<in> set es" and x: "extracted e' = Some (path_str (rel_parts e), c)"
    by (auto simp: extract_fold_keys)
  from extracted_key[OF x] have "path_str (rel_parts e') = path_str (rel_parts e)" by simp
  with assms(1,2) e' have "e' = e"
    by (meson distinct_map inj_onD)
  with x assms(3) show False by simp
qed


lemma extract_walk_quiet:
  "walk_quiet walk \<Longrightarrow>
   extract_walk acc walk = Inr (foldl extract_file acc (regular_files walk))"
proof (induction walk arbitrary: acc)
  case Nil
  then show ?case by simp
next
  case (Cons step walk)
  from Cons.prems have q: "quiet_step step" and w: "walk_quiet walk"
    by (simp_all add: walk_quiet_def)
  show ?case
  proof (cases step)
    case (Raise x)
    with q show ?thesis by simp
  next
    case (Yield e)
    with q obtain b where b: "is_file e = Inr b" by (cases "is_file e") simp_all
    with Yield Cons.IH[OF w] show ?thesis by simp
  qed
qed

lemma extract_walk_raises:
  "\<not> walk_quiet walk \<Longrightarrow> \<exists>x. extract_walk acc walk = Inl x"
proof (induction walk arbitrary: acc)
  case Nil
  then show ?case by (simp add: walk_quiet_def)
next
  case (Cons step walk)
  show ?case
  proof (cases step)
    case (Raise x)
    then show ?thesis by simp
  next
    case (Yield e)
    show ?thesis
    proof (cases "is_file e")
      case (Inl x)
      with Yield show ?thesis by simp
    next
      case (Inr b)
      with Yield Cons.prems have "\<not> walk_quiet walk" by (simp add: walk_quiet_def)
      from Cons.IH[OF this] Yield Inr show ?thesis by simp
    qed
  qed
qed

lemma extract_source_code_missing_root:
  "fs root = None \<Longrightarrow>
   extract_source_code fs root = Inl (ValueError (S ''Repository path does not exist: '' @ root))"
  by (simp add: extract_source_code_def)

text \<open>
  When the root exists, the extraction fails exactly when a step of the walk or a call
  of \<open>is_file()\<close> raises.
\<close>

lemma extract_source_code_fails_iff:
  "fs root = Some walk \<Longrightarrow>
   (\<exists>x. extract_source_code fs root = Inl x) \<longleftrightarrow> \<not> walk_quiet walk"
  using extract_walk_raises[of walk "[]"] extract_walk_quiet[of walk "[]"]
  by (auto simp: extract_source_code_def)

text \<open>
  On a quiet walk the errors of opening and reading are skipped: every regular file
  that passes the filter, is read without error and does not look binary is returned
  with its content, and a file whose read raises is absent. (Relative paths of distinct
  files are distinct.)
\<close>

lemma extract_source_code_read_errors_skipped:
  assumes "fs root = Some walk" and "walk_quiet walk"
    and "distinct (map (\<lambda>e. path_str (rel_parts e)) (regular_files walk))"
  shows "\<exists>files. extract_source_code fs root = Inr files \<and>
           (\<forall>e \<in> set (regular_files walk).
              (\<forall>c. passes_filter e \<and> read_result e = Inr c \<and> \<not> looks_binary c \<longrightarrow>
                   map_of files (path_str (rel_parts e)) = Some c) \<and>
              (\<forall>x. read_result e = Inl x \<longrightarrow> map_of files (path_str (rel_parts e)) = None))"
proof -
  let ?files = "foldl extract_file [] (regular_files walk)"
  have r: "extract_source_code fs root = Inr ?files"
    using assms(1) extract_walk_quiet[OF assms(2), of "[]"] by (simp add: extract_source_code_def)
  have "\<forall>e \<in> set (regular_files walk).
              (\<forall>c. passes_filter e \<and> read_result e = Inr c \<and> \<not> looks_binary c \<longrightarrow>
                   map_of ?files (path_str (rel_parts e)) = Some c) \<and>
              (\<forall>x. read_result e = Inl x \<longrightarrow> map_of ?files (path_str (rel_parts e)) = None)"
  proof (intro ballI conjI allI impI)
    fix e c
    assume e: "e \<in> set (regular_files walk)"
      and "passes_filter e \<and> read_result e = Inr c \<and> \<not> looks_binary c"
    then have "extracted e = Some (path_str (rel_parts e), c)" by (simp add: extracted_def)
    from extract_fold_value[OF assms(3) e this]
    show "map_of ?files (path_str (rel_parts e)) = Some c" .
  next
    fix e x
    assume e: "e \<in> set (regular_files walk)" and "read_result e = Inl x"
    then have "extracted e = None" by (simp add: extracted_def)
    from extract_fold_skipped[OF assms(3) e this]
    show "map_of ?files (path_str (rel_parts e)) = None"
      by (simp add: map_of_eq_None_iff)
  qed
  with r show ?thesis by blast
qed

lemma S_inj: "S a = S b \<longleftrightarrow> a = b"
  by (simp add: S_def inj_map_eq_map inj_of_char)

lemma sample_passes: "passes_filter file_a" "passes_filter file_go"
  by (simp_all add: file_a_def file_go_def passes_filter_def should_exclude_path_def Let_def
      path_name_def path_suffix_def suffix_of_def rfind_def DOT_def startswith_dot_def
      lower_def lower_cp_def S_def SOURCE_EXTENSIONS_def EXCLUDED_DIRS_def EXCLUDED_FILES_def
      EXCLUDED_EXTENSIONS_def)

lemma plain_text: "\<not> looks_binary (S ''x = 1'')" "\<not> looks_binary (S ''package main'')"
  by (simp_all add: looks_binary_def is_control_def S_def)

lemma sample_extracted:
  "extracted file_a = Some (S ''src/a.py'', S ''x = 1'')"
  "extracted file_b = None"
  "extracted file_go = Some (S ''main.go'', S ''package main'')"
proof -
  have k: "path_str (rel_parts file_a) = S ''src/a.py''"
    "path_str (rel_parts file_go) = S ''main.go''"
    by (simp_all add: file_a_def file_go_def path_str_def S_def)
  have r: "read_result file_a = Inr (S ''x = 1'')"
    "read_result file_b = Inl (Exception (S ''Permission denied''))"
    "read_result file_go = Inr (S ''package main'')"
    by (simp_all add: file_a_def file_b_def file_go_def)
  show "extracted file_a = Some (S ''src/a.py'', S ''x = 1'')"
    by (simp add: extracted_def sample_passes(1) r(1) plain_text(1) k(1))
  show "extracted file_b = None"
    by (simp add: extracted_def r(2))
  show "extracted file_go = Some (S ''main.go'', S ''package main'')"
    by (simp add: extracted_def sample_passes(2) r(3) plain_text(2) k(2))
qed

lemma sample_regular:
  "is_file file_a = Inr True" "is_file file_b = Inr True" "is_file file_go = Inr True"
  by (simp_all add: file_a_def file_b_def file_go_def)

lemma sample_extraction:
  "extract_source_code sample_fs (S ''github_repos/demo'')
     = Inr [(S ''src/a.py'', S ''x = 1''), (S ''main.go'', S ''package main'')]"
proof -
  have "extract_walk [] [Yield file_a, Yield file_b, Yield file_go]
      = Inr [(S ''src/a.py'', S ''x = 1''), (S ''main.go'', S ''package main'')]"
    by (simp add: sample_regular extract_file_extracted sample_extracted S_inj)
  then show ?thesis
    by (simp add: extract_source_code_def sample_fs_def sample_entries_def sample_files_def)
qed

text \<open>
  Claim C7: \<open>extract_source_code\<close> fails if and only if the root path does not exist,
  and an error on one file never fails the extraction: the file is skipped and the
  other readable files are returned. The source does not do this for every error of a
  file. \<open>is_file()\<close> is called outside the \<open>try\<close> that guards the reading: in the
  repository that has, next to the files of the sample, a symbolic link on which
  \<open>is_file()\<close> raises, the root exists and the extraction fails with that \<open>OSError\<close>,
  where without the link it returns the two readable source files.
\<close>

theorem extract_source_code_is_file_error:
  "link_fs (S ''github_repos/demo'') = Some link_entries \<and>
   extract_source_code link_fs (S ''github_repos/demo'')
     = Inl (OSError (S ''[Errno 36] File name too long'')) \<and>
   extract_source_code sample_fs (S ''github_repos/demo'')
     = Inr [(S ''src/a.py'', S ''x = 1''), (S ''main.go'', S ''package main'')]"
proof -
  have 1: "link_fs (S ''github_repos/demo'') = Some link_entries"
    by (simp add: link_fs_def)
  have "extract_walk [] link_entries = Inl (OSError (S ''[Errno 36] File name too long''))"
    by (simp add: link_entries_def sample_regular long_link_def)
  with 1 have 2: "extract_source_code link_fs (S ''github_repos/demo'')
      = Inl (OSError (S ''[Errno 36] File name too long''))"
    by (simp add: extract_source_code_def)
  from 1 2 sample_extraction show ?thesis by simp
qed

section \<open>Properties of report aggregation\<close>

lemma foldl_append_findings:
  "foldl (\<lambda>acc scan_result. acc @ vulnerabilities scan_result) a results = a @ all_findings results"
  by (induction results arbitrary: a) (simp_all add: all_findings_def)

lemma count_severity_length:
  "count_severity sev vs = int (length (filter (\<lambda>v. severity v = sev) vs))"
  unfolding count_severity_def by (induction vs) simp_all

lemma count_findings_length:
  "count_findings sev results = int (length (filter (\<lambda>v. severity v = sev) (all_findings results)))"
  using count_severity_length[of sev "all_findings results"]
  by (simp add: count_findings_def count_severity_def all_findings_def)

lemma total_length:
  "sum_list (map (\<lambda>result. int (length (vulnerabilities result))) results)
     = int (length (all_findings results))"
  by (induction results) (simp_all add: all_findings_def)

lemma five_way_count:
  "int (length (filter (\<lambda>v. severity v = S ''Critical'') vs)) +
   int (length (filter (\<lambda>v. severity v = S ''High'') vs)) +
   int (length (filter (\<lambda>v. severity v = S ''Medium'') vs)) +
   int (length (filter (\<lambda>v. severity v = S ''Low'') vs)) +
   int (length (filter (\<lambda>v. severity v = S ''Info'') vs))
   = int (length (filter (\<lambda>v. severity v \<in> SEVERITIES) vs))"
  by (induction vs) (auto simp: SEVERITIES_def S_inj)

lemma counts_sum_pipeline:
  "counts_sum (severity_breakdown (pipeline_report results))
     = int (length (filter (\<lambda>v. severity v \<in> SEVERITIES) (all_findings results)))"
  by (simp add: counts_sum_def pipeline_report_def Let_def count_findings_length five_way_count)

lemma counts_sum_saved:
  "vr_counts_sum (build_vulnerability_report u g r n results t1 t2 t3)
     = int (length (filter (\<lambda>v. severity v \<in> SEVERITIES) (all_findings results)))"
  by (simp add: vr_counts_sum_def build_vulnerability_report_def Let_def foldl_append_findings
      count_severity_length five_way_count)

lemma totals:
  "total_vulnerabilities (pipeline_report results) = int (length (all_findings results))"
  "vr_total_vulnerabilities (build_vulnerability_report u g r n results t1 t2 t3)
     = int (length (all_findings results))"
  by (simp_all add: pipeline_report_def build_vulnerability_report_def Let_def total_length
      foldl_append_findings)

text \<open>
  Claim C4, amended: for every list of scan results in which the severity of every
  finding is exactly one of the strings Critical, High, Medium, Low and Info, the five
  per-severity counts sum to \<open>total_vulnerabilities\<close>, which is the number of findings
  of all scan results together; a severity that no finding has is counted zero. This
  holds for the report \<open>run_pipeline\<close> returns and for the one
  \<open>save_vulnerability_report\<close> stores.
\<close>

theorem severity_counts_sum:
  assumes "\<forall>v \<in> set (all_findings results). severity v \<in> SEVERITIES"
  shows "counts_sum (severity_breakdown (pipeline_report results))
           = total_vulnerabilities (pipeline_report results) \<and>
         total_vulnerabilities (pipeline_report results) = int (length (all_findings results)) \<and>
         vr_counts_sum (build_vulnerability_report u g r n results t1 t2 t3)
           = vr_total_vulnerabilities (build_vulnerability_report u g r n results t1 t2 t3) \<and>
         vr_total_vulnerabilities (build_vulnerability_report u g r n results t1 t2 t3)
           = int (length (all_findings results)) \<and>
         (\<forall>sev. (\<forall>v \<in> set (all_findings results). severity v \<noteq> sev) \<longrightarrow>
            count_findings sev results = 0 \<and> count_severity sev (all_findings results) = 0)"
proof -
  from assms have "filter (\<lambda>v. severity v \<in> SEVERITIES) (all_findings results) = all_findings results"
    by simp
  moreover have "\<forall>sev. (\<forall>v \<in> set (all_findings results). severity v \<noteq> sev) \<longrightarrow>
            count_findings sev results = 0 \<and> count_severity sev (all_findings results) = 0"
    by (simp add: count_findings_length count_severity_length)
  ultimately show ?thesis
    by (simp add: counts_sum_pipeline counts_sum_saved totals)
qed


lemma sample_findings: "all_findings [sample_scan sevs] = map sample_finding sevs"
  by (simp add: all_findings_def sample_scan_def)

lemma severity_sample: "severity (sample_finding sev) = sev"
  by (simp add: sample_finding_def)

text \<open>
  Claim C4 says this of every report. The severity is compared with \<open>==\<close> against the
  five capitalised names, and the schema admits any string: one finding of severity
  \<open>critical\<close> gives a total of 1 and five counts that sum to 0.
\<close>

theorem severity_counts_sum_counterexample:
  "total_vulnerabilities (pipeline_report [sample_scan [S ''critical'']]) = 1 \<and>
   counts_sum (severity_breakdown (pipeline_report [sample_scan [S ''critical'']])) = 0 \<and>
   vr_total_vulnerabilities
     (build_vulnerability_report (S ''u1'') (S ''g1'') (S ''r1'') (S ''owner/repo'')
        [sample_scan [S ''critical'']] 0 0 0) = 1 \<and>
   vr_counts_sum
     (build_vulnerability_report (S ''u1'') (S ''g1'') (S ''r1'') (S ''owner/repo'')
        [sample_scan [S ''critical'']] 0 0 0) = 0"
  by (simp add: counts_sum_pipeline counts_sum_saved totals sample_findings severity_sample
      SEVERITIES_def S_inj)

text \<open>One Critical and two High findings: total 3, counts summing to 3, Medium 0.\<close>

theorem severity_counts_sum_witness:
  "list_all (\<lambda>v. severity v \<in> SEVERITIES)
     (all_findings [sample_scan [S ''Critical'', S ''High'', S ''High'']]) \<and>
   total_vulnerabilities (pipeline_report [sample_scan [S ''Critical'', S ''High'', S ''High'']]) = 3 \<and>
   counts_sum (severity_breakdown
     (pipeline_report [sample_scan [S ''Critical'', S ''High'', S ''High'']])) = 3 \<and>
   count_findings (S ''Medium'') [sample_scan [S ''Critical'', S ''High'', S ''High'']] = 0"
proof -
  let ?rs = "[sample_scan [S ''Critical'', S ''High'', S ''High'']]"
  have h: "\<forall>v \<in> set (all_findings ?rs). severity v \<in> SEVERITIES"
    by (simp add: sample_findings severity_sample SEVERITIES_def)
  have m: "\<forall>v \<in> set (all_findings ?rs). severity v \<noteq> S ''Medium''"
    by (simp add: sample_findings severity_sample S_inj)
  have n: "int (length (all_findings ?rs)) = 3" by (simp add: sample_findings)
  from severity_counts_sum[OF h] m n h show ?thesis
    by (simp add: list_all_iff)
qed

section \<open>Properties of persistence\<close>

lemma length_update_one: "length (update_one flt upd coll) = length coll"
  by (induction coll) simp_all

lemma find_after_update:
  assumes "find (matches key) coll = Some ex" and "matches idf ex"
    and "\<And>d. matches key (d ++ upd)"
  shows "\<exists>d0. matches idf d0 \<and> find (matches key) (update_one idf upd coll) = Some (d0 ++ upd)"
  using assms(1)
proof (induction coll)
  case Nil
  then show ?case by simp
next
  case (Cons d ds)
  show ?case
  proof (cases "matches idf d")
    case True
    with assms(3)[of d] show ?thesis by (intro exI[of _ d]) simp
  next
    case False
    with assms(2) have "d \<noteq> ex" by auto
    with Cons.prems have "\<not> matches key d" and "find (matches key) ds = Some ex"
      by (auto split: if_splits)
    with Cons.IH False show ?thesis by simp
  qed
qed

lemma matches_id: "matches [(''_id'', i)] d \<longleftrightarrow> d ''_id'' = Some i"
  by (simp add: matches_def)

lemma matches_repo_key:
  "matches (repo_key u g r) d \<longleftrightarrow>
     d ''user_id'' = Some (BStr u) \<and> d ''github_id'' = Some (BStr g) \<and> d ''repo_id'' = Some (BStr r)"
  by (simp add: matches_def repo_key_def)

lemma save_pipeline_result_existing:
  assumes "db_available w"
    and "find_one (repo_key u g r) (pipeline_results w) = Some ex"
    and "ex ''_id'' = Some i" and "ex ''created_at'' = Some c"
  shows "\<exists>w' d. save_pipeline_result w u g r n cs path = Inr (i, w') \<and>
           find_one (repo_key u g r) (pipeline_results w') = Some d \<and>
           d ''_id'' = Some i \<and>
           d ''created_at'' = Some c \<and>
           d ''updated_at'' = Some (BTime (clock w (ticks w + 3))) \<and>
           d ''repo_name'' = Some (BStr n) \<and>
           d ''chunks'' = Some (BChunks cs) \<and>
           d ''total_chunks'' = Some (BInt (int (length cs))) \<and>
           d ''repo_path'' = Some (bson_opt_str path) \<and>
           (\<forall>k v. k \<noteq> ''created_at'' \<and> k \<noteq> ''updated_at'' \<and>
                  model_dump_pipeline
                    \<lparr> pr_user_id = u, pr_github_id = g, pr_repo_id = r, pr_repo_name = n,
                      pr_chunks = cs, pr_total_chunks = int (length cs), pr_repo_path = path,
                      pr_created_at = clock w (ticks w),
                      pr_updated_at = clock w (Suc (ticks w)) \<rparr> k = Some v \<longrightarrow>
                  d k = Some v) \<and>
           length (pipeline_results w') = length (pipeline_results w) \<and>
           vulnerability_reports w' = vulnerability_reports w"
proof -
  define upd where "upd = (model_dump_pipeline
       \<lparr> pr_user_id = u, pr_github_id = g, pr_repo_id = r, pr_repo_name = n, pr_chunks = cs,
         pr_total_chunks = int (length cs), pr_repo_path = path,
         pr_created_at = clock w (ticks w), pr_updated_at = clock w (Suc (ticks w)) \<rparr>)
       (''created_at'' \<mapsto> c, ''updated_at'' \<mapsto> BTime (clock w (ticks w + 3)))"
  define w' where "w' = (tick (tick (tick (tick w))))
       \<lparr> pipeline_results := update_one [(''_id'', i)] upd (pipeline_results w) \<rparr>"
  have res: "save_pipeline_result w u g r n cs path = Inr (i, w')"
    using assms
    by (simp add: save_pipeline_result_def Let_def reading_def tick_def get_created_at_def
        upd_def w'_def eval_nat_numeral)
  have key: "\<And>d. matches (repo_key u g r) (d ++ upd)"
    by (simp add: matches_repo_key upd_def model_dump_pipeline_def map_add_def)
  from assms(2) have f: "find (matches (repo_key u g r)) (pipeline_results w) = Some ex"
    by (simp add: find_one_def)
  from assms(3) have idm: "matches [(''_id'', i)] ex" by (simp add: matches_id)
  from find_after_update[OF f idm key] obtain d0 where
    d0: "d0 ''_id'' = Some i" and
    fd: "find (matches (repo_key u g r)) (update_one [(''_id'', i)] upd (pipeline_results w))
           = Some (d0 ++ upd)"
    by (auto simp: matches_id)
  let ?d = "d0 ++ upd"
  have 1: "find_one (repo_key u g r) (pipeline_results w') = Some ?d"
    using fd by (simp add: find_one_def w'_def tick_def)
  have 2: "?d ''_id'' = Some i"
    using d0 by (simp add: map_add_def upd_def model_dump_pipeline_def)
  have 3: "?d ''created_at'' = Some c" "?d ''updated_at'' = Some (BTime (clock w (ticks w + 3)))"
    "?d ''repo_name'' = Some (BStr n)" "?d ''chunks'' = Some (BChunks cs)"
    "?d ''total_chunks'' = Some (BInt (int (length cs)))"
    "?d ''repo_path'' = Some (bson_opt_str path)"
    by (simp_all add: map_add_def upd_def model_dump_pipeline_def)
  have 4: "length (pipeline_results w') = length (pipeline_results w)"
    "vulnerability_reports w' = vulnerability_reports w"
    by (simp_all add: w'_def tick_def length_update_one)
  have 5: "\<forall>k v. k \<noteq> ''created_at'' \<and> k \<noteq> ''updated_at'' \<and>
                  model_dump_pipeline
                    \<lparr> pr_user_id = u, pr_github_id = g, pr_repo_id = r, pr_repo_name = n,
                      pr_chunks = cs, pr_total_chunks = int (length cs), pr_repo_path = path,
                      pr_created_at = clock w (ticks w),
                      pr_updated_at = clock w (Suc (ticks w)) \<rparr> k = Some v \<longrightarrow>
                  ?d k = Some v"
    by (simp add: upd_def map_add_def)
  from res 1 2 3 4 5 show ?thesis
    by (intro exI[of _ w'] exI[of _ "d0 ++ upd"]) simp
qed


lemma save_vulnerability_report_existing:
  assumes "db_available w"
    and "find_one (repo_key u g r) (vulnerability_reports w) = Some ex"
    and "ex ''_id'' = Some i" and "ex ''created_at'' = Some c"
  shows "\<exists>w' d. save_vulnerability_report w u g r n results = Inr (i, w') \<and>
           find_one (repo_key u g r) (vulnerability_reports w') = Some d \<and>
           d ''_id'' = Some i \<and>
           d ''created_at'' = Some c \<and>
           d ''updated_at'' = Some (BTime (clock w (ticks w + 4))) \<and>
           d ''repo_name'' = Some (BStr n) \<and>
           d ''scan_results'' = Some (BScanResults results) \<and>
           d ''total_vulnerabilities'' = Some (BInt (int (length (all_findings results)))) \<and>
           d ''scan_completed_at'' = Some (BTime (clock w (ticks w))) \<and>
           (\<forall>k v. k \<noteq> ''created_at'' \<and> k \<noteq> ''updated_at'' \<and>
                  model_dump_report
                    (build_vulnerability_report u g r n results (clock w (ticks w))
                       (clock w (Suc (ticks w))) (clock w (Suc (Suc (ticks w))))) k = Some v \<longrightarrow>
                  d k = Some v) \<and>
           length (vulnerability_reports w') = length (vulnerability_reports w) \<and>
           pipeline_results w' = pipeline_results w"
proof -
  define rep where "rep = build_vulnerability_report u g r n results
       (clock w (ticks w)) (clock w (Suc (ticks w))) (clock w (Suc (Suc (ticks w))))"
  define upd where "upd = (model_dump_report rep)
       (''created_at'' \<mapsto> c, ''updated_at'' \<mapsto> BTime (clock w (ticks w + 4)))"
  define w' where "w' = (tick (tick (tick (tick (tick w)))))
       \<lparr> vulnerability_reports := update_one [(''_id'', i)] upd (vulnerability_reports w) \<rparr>"
  have res: "save_vulnerability_report w u g r n results = Inr (i, w')"
    using assms
    by (simp add: save_vulnerability_report_def Let_def reading_def tick_def get_created_at_def
        upd_def w'_def rep_def eval_nat_numeral)
  have fields: "vr_user_id rep = u" "vr_github_id rep = g" "vr_repo_id rep = r"
    "vr_repo_name rep = n" "vr_scan_results rep = results"
    "vr_scan_completed_at rep = clock w (ticks w)"
    by (simp_all add: rep_def build_vulnerability_report_def Let_def)
  have total: "vr_total_vulnerabilities rep = int (length (all_findings results))"
    unfolding rep_def by (rule totals(2))
  have key: "\<And>d. matches (repo_key u g r) (d ++ upd)"
    by (simp add: matches_repo_key upd_def model_dump_report_def map_add_def fields)
  from assms(2) have f: "find (matches (repo_key u g r)) (vulnerability_reports w) = Some ex"
    by (simp add: find_one_def)
  from assms(3) have idm: "matches [(''_id'', i)] ex" by (simp add: matches_id)
  from find_after_update[OF f idm key] obtain d0 where
    d0: "d0 ''_id'' = Some i" and
    fd: "find (matches (repo_key u g r)) (update_one [(''_id'', i)] upd (vulnerability_reports w))
           = Some (d0 ++ upd)"
    by (auto simp: matches_id)
  let ?d = "d0 ++ upd"
  have 1: "find_one (repo_key u g r) (vulnerability_reports w') = Some ?d"
    using fd by (simp add: find_one_def w'_def tick_def)
  have 2: "?d ''_id'' = Some i"
    using d0 by (simp add: map_add_def upd_def model_dump_report_def)
  have 3: "?d ''created_at'' = Some c" "?d ''updated_at'' = Some (BTime (clock w (ticks w + 4)))"
    "?d ''repo_name'' = Some (BStr n)" "?d ''scan_results'' = Some (BScanResults results)"
    "?d ''total_vulnerabilities'' = Some (BInt (int (length (all_findings results))))"
    "?d ''scan_completed_at'' = Some (BTime (clock w (ticks w)))"
    by (simp_all add: map_add_def upd_def model_dump_report_def fields total)
  have 4: "length (vulnerability_reports w') = length (vulnerability_reports w)"
    "pipeline_results w' = pipeline_results w"
    by (simp_all add: w'_def tick_def length_update_one)
  have 5: "\<forall>k v. k \<noteq> ''created_at'' \<and> k \<noteq> ''updated_at'' \<and>
                  model_dump_report
                    (build_vulnerability_report u g r n results (clock w (ticks w))
                       (clock w (Suc (ticks w))) (clock w (Suc (Suc (ticks w))))) k = Some v \<longrightarrow>
                  ?d k = Some v"
    by (simp add: upd_def map_add_def rep_def)
  from res 1 2 3 4 5 show ?thesis
    by (intro exI[of _ w'] exI[of _ "d0 ++ upd"]) simp
qed

text \<open>
  Claim C9: when a record of the key (user_id, github_id, repo_id) already exists, saving
  again returns the id of that record and adds no record; the record found under the key
  afterwards has the same \<open>_id\<close>, every field of the new result, the \<open>created_at\<close> the
  existing record had, and as \<open>updated_at\<close> the last clock reading the call takes. This
  holds for \<open>save_pipeline_result\<close> and for \<open>save_vulnerability_report\<close>.
\<close>

theorem upsert_preserves_created_at:
  "(db_available w \<and> find_one (repo_key u g r) (pipeline_results w) = Some ex \<and>
    ex ''_id'' = Some i \<and> ex ''created_at'' = Some c \<longrightarrow>
      (\<exists>w' d. save_pipeline_result w u g r n cs path = Inr (i, w') \<and>
           find_one (repo_key u g r) (pipeline_results w') = Some d \<and>
           d ''_id'' = Some i \<and>
           d ''created_at'' = Some c \<and>
           d ''updated_at'' = Some (BTime (clock w (ticks w + 3))) \<and>
           d ''repo_name'' = Some (BStr n) \<and>
           d ''chunks'' = Some (BChunks cs) \<and>
           d ''total_chunks'' = Some (BInt (int (length cs))) \<and>
           d ''repo_path'' = Some (bson_opt_str path) \<and>
           (\<forall>k v. k \<noteq> ''created_at'' \<and> k \<noteq> ''updated_at'' \<and>
                  model_dump_pipeline
                    \<lparr> pr_user_id = u, pr_github_id = g, pr_repo_id = r, pr_repo_name = n,
                      pr_chunks = cs, pr_total_chunks = int (length cs), pr_repo_path = path,
                      pr_created_at = clock w (ticks w),
                      pr_updated_at = clock w (Suc (ticks w)) \<rparr> k = Some v \<longrightarrow>
                  d k = Some v) \<and>
           length (pipeline_results w') = length (pipeline_results w) \<and>
           vulnerability_reports w' = vulnerability_reports w)) \<and>
   (db_available w \<and> find_one (repo_key u g r) (vulnerability_reports w) = Some ex2 \<and>
    ex2 ''_id'' = Some i2 \<and> ex2 ''created_at'' = Some c2 \<longrightarrow>
      (\<exists>w' d. save_vulnerability_report w u g r n results = Inr (i2, w') \<and>
           find_one (repo_key u g r) (vulnerability_reports w') = Some d \<and>
           d ''_id'' = Some i2 \<and>
           d ''created_at'' = Some c2 \<and>
           d ''updated_at'' = Some (BTime (clock w (ticks w + 4))) \<and>
           d ''repo_name'' = Some (BStr n) \<and>
           d ''scan_results'' = Some (BScanResults results) \<and>
           d ''total_vulnerabilities'' = Some (BInt (int (length (all_findings results)))) \<and>
           d ''scan_completed_at'' = Some (BTime (clock w (ticks w))) \<and>
           (\<forall>k v. k \<noteq> ''created_at'' \<and> k \<noteq> ''updated_at'' \<and>
                  model_dump_report
                    (build_vulnerability_report u g r n results (clock w (ticks w))
                       (clock w (Suc (ticks w))) (clock w (Suc (Suc (ticks w))))) k = Some v \<longrightarrow>
                  d k = Some v) \<and>
           length (vulnerability_reports w') = length (vulnerability_reports w) \<and>
           pipeline_results w' = pipeline_results w))"
proof (intro conjI impI)
  assume "db_available w \<and> find_one (repo_key u g r) (pipeline_results w) = Some ex \<and>
    ex ''_id'' = Some i \<and> ex ''created_at'' = Some c"
  then have 1: "db_available w" and 2: "find_one (repo_key u g r) (pipeline_results w) = Some ex"
    and 3: "ex ''_id'' = Some i" and 4: "ex ''created_at'' = Some c" by simp_all
  show "\<exists>w' d. save_pipeline_result w u g r n cs path = Inr (i, w') \<and>
           find_one (repo_key u g r) (pipeline_results w') = Some d \<and>
           d ''_id'' = Some i \<and>
           d ''created_at'' = Some c \<and>
           d ''updated_at'' = Some (BTime (clock w (ticks w + 3))) \<and>
           d ''repo_name'' = Some (BStr n) \<and>
           d ''chunks'' = Some (BChunks cs) \<and>
           d ''total_chunks'' = Some (BInt (int (length cs))) \<and>
           d ''repo_path'' = Some (bson_opt_str path) \<and>
           (\<forall>k v. k \<noteq> ''created_at'' \<and> k \<noteq> ''updated_at'' \<and>
                  model_dump_pipeline
                    \<lparr> pr_user_id = u, pr_github_id = g, pr_repo_id = r, pr_repo_name = n,
                      pr_chunks = cs, pr_total_chunks = int (length cs), pr_repo_path = path,
                      pr_created_at = clock w (ticks w),
                      pr_updated_at = clock w (Suc (ticks w)) \<rparr> k = Some v \<longrightarrow>
                  d k = Some v) \<and>
           length (pipeline_results w') = length (pipeline_results w) \<and>
           vulnerability_reports w' = vulnerability_reports w"
    by (rule save_pipeline_result_existing[OF 1 2 3 4])
next
  assume "db_available w \<and> find_one (repo_key u g r) (vulnerability_reports w) = Some ex2 \<and>
    ex2 ''_id'' = Some i2 \<and> ex2 ''created_at'' = Some c2"
  then have 1: "db_available w" and 2: "find_one (repo_key u g r) (vulnerability_reports w) = Some ex2"
    and 3: "ex2 ''_id'' = Some i2" and 4: "ex2 ''created_at'' = Some c2" by simp_all
  show "\<exists>w' d. save_vulnerability_report w u g r n results = Inr (i2, w') \<and>
           find_one (repo_key u g r) (vulnerability_reports w') = Some d \<and>
           d ''_id'' = Some i2 \<and>
           d ''created_at'' = Some c2 \<and>
           d ''updated_at'' = Some (BTime (clock w (ticks w + 4))) \<and>
           d ''repo_name'' = Some (BStr n) \<and>
           d ''scan_results'' = Some (BScanResults results) \<and>
           d ''total_vulnerabilities'' = Some (BInt (int (length (all_findings results)))) \<and>
           d ''scan_completed_at'' = Some (BTime (clock w (ticks w))) \<and>
           (\<forall>k v. k \<noteq> ''created_at'' \<and> k \<noteq> ''updated_at'' \<and>
                  model_dump_report
                    (build_vulnerability_report u g r n results (clock w (ticks w))
                       (clock w (Suc (ticks w))) (clock w (Suc (Suc (ticks w))))) k = Some v \<longrightarrow>
                  d k = Some v) \<and>
           length (vulnerability_reports w') = length (vulnerability_reports w) \<and>
           pipeline_results w' = pipeline_results w"
    by (rule save_vulnerability_report_existing[OF 1 2 3 4])
qed

text \<open>Records created at 100 and updated at 150, saved again when the clock reads 200
  and later: \<open>created_at\<close> stays 100, \<open>updated_at\<close> becomes 203 and 204.\<close>

theorem upsert_preserves_created_at_witness:
  "db_available sample_store \<and>
   find_one (repo_key (S ''u1'') (S ''g1'') (S ''r1'')) (pipeline_results sample_store)
     = Some old_pipeline_doc \<and>
   old_pipeline_doc ''created_at'' = Some (BTime 100) \<and>
   old_pipeline_doc ''updated_at'' = Some (BTime 150) \<and>
   (\<exists>w' d. save_pipeline_result sample_store (S ''u1'') (S ''g1'') (S ''r1'') (S ''owner/repo'') [] None
              = Inr (BId 7, w') \<and>
      find_one (repo_key (S ''u1'') (S ''g1'') (S ''r1'')) (pipeline_results w') = Some d \<and>
      d ''created_at'' = Some (BTime 100) \<and>
      d ''updated_at'' = Some (BTime 203) \<and>
      d ''repo_name'' = Some (BStr (S ''owner/repo''))) \<and>
   find_one (repo_key (S ''u1'') (S ''g1'') (S ''r1'')) (vulnerability_reports sample_store)
     = Some old_report_doc \<and>
   old_report_doc ''created_at'' = Some (BTime 100) \<and>
   (\<exists>w' d. save_vulnerability_report sample_store (S ''u1'') (S ''g1'') (S ''r1'') (S ''owner/repo'') []
              = Inr (BId 8, w') \<and>
      find_one (repo_key (S ''u1'') (S ''g1'') (S ''r1'')) (vulnerability_reports w') = Some d \<and>
      d ''created_at'' = Some (BTime 100) \<and>
      d ''updated_at'' = Some (BTime 204) \<and>
      d ''repo_name'' = Some (BStr (S ''owner/repo'')))"
proof -
  let ?k = "repo_key (S ''u1'') (S ''g1'') (S ''r1'')"
  have a: "db_available sample_store" by (simp add: sample_store_def)
  have p: "find_one ?k (pipeline_results sample_store) = Some old_pipeline_doc"
    by (simp add: find_one_def sample_store_def matches_repo_key old_pipeline_doc_def)
  have v: "find_one ?k (vulnerability_reports sample_store) = Some old_report_doc"
    by (simp add: find_one_def sample_store_def matches_repo_key old_report_doc_def)
  have pf: "old_pipeline_doc ''_id'' = Some (BId 7)" "old_pipeline_doc ''created_at'' = Some (BTime 100)"
    "old_pipeline_doc ''updated_at'' = Some (BTime 150)"
    by (simp_all add: old_pipeline_doc_def)
  have vf: "old_report_doc ''_id'' = Some (BId 8)" "old_report_doc ''created_at'' = Some (BTime 100)"
    by (simp_all add: old_report_doc_def)
  have c: "clock sample_store (ticks sample_store + 3) = 203"
    "clock sample_store (ticks sample_store + 4) = 204"
    by (simp_all add: sample_store_def)
  note t = upsert_preserves_created_at[of sample_store "S ''u1''" "S ''g1''" "S ''r1''"
      old_pipeline_doc "BId 7" "BTime 100" "S ''owner/repo''" "[]" None
      old_report_doc "BId 8" "BTime 100" "[]"]
  have P: "db_available sample_store \<and>
      find_one ?k (pipeline_results sample_store) = Some old_pipeline_doc \<and>
      old_pipeline_doc ''_id'' = Some (BId 7) \<and> old_pipeline_doc ''created_at'' = Some (BTime 100)"
    using a p pf by simp
  have V: "db_available sample_store \<and>
      find_one ?k (vulnerability_reports sample_store) = Some old_report_doc \<and>
      old_report_doc ''_id'' = Some (BId 8) \<and> old_report_doc ''created_at'' = Some (BTime 100)"
    using a v vf by simp
  from t[THEN conjunct1, THEN mp, OF P]
  have A: "\<exists>w' d. save_pipeline_result sample_store (S ''u1'') (S ''g1'') (S ''r1'')
         (S ''owner/repo'') [] None = Inr (BId 7, w') \<and>
      find_one ?k (pipeline_results w') = Some d \<and>
      d ''created_at'' = Some (BTime 100) \<and>
      d ''updated_at'' = Some (BTime 203) \<and>
      d ''repo_name'' = Some (BStr (S ''owner/repo''))"
    unfolding c by (elim exE conjE, intro exI conjI) assumption+
  from t[THEN conjunct2, THEN mp, OF V]
  have B: "\<exists>w' d. save_vulnerability_report sample_store (S ''u1'') (S ''g1'') (S ''r1'')
         (S ''owner/repo'') [] = Inr (BId 8, w') \<and>
      find_one ?k (vulnerability_reports w') = Some d \<and>
      d ''created_at'' = Some (BTime 100) \<and>
      d ''updated_at'' = Some (BTime 204) \<and>
      d ''repo_name'' = Some (BStr (S ''owner/repo''))"
    unfolding c by (elim exE conjE, intro exI conjI) assumption+
  from a p v pf vf A B show ?thesis by simp
qed

section \<open>Properties of the pipeline run\<close>








lemma run_start_reuse:
  assumes "disk_at_start w (repo_dir n) \<noteq> None"
  shows "run_start env w n token = Inr (repo_dir n, w \<lparr> files := disk_at_start w \<rparr>)"
  using assms by (auto simp add: run_start_def Let_def)





text \<open>
  Claim C6: in every run in which the \<open>try\<close> block is entered and
  \<open>process_repository\<close> returns chunks, a failure of the vulnerability analysis does not
  fail the run: the result has \<open>success = True\<close>, all the chunks and their number, and
  no vulnerability report, whatever the outcome of persistence and of cleanup.
\<close>

theorem run_pipeline_analysis_failure:
  "run_start env w n token = Inr (p, w1) \<and> run_process env w1 p = Inr cs \<and>
   analyze_repository env cs = Inl e \<longrightarrow>
     fst (run_pipeline env w n u g r token) =
       \<lparr> res_success = True,
         res_message = S ''Successfully processed repository: '' @ n,
         res_repo_path = Some p,
         res_total_chunks = Some (int (length cs)),
         res_chunks = cs,
         res_vulnerability_report = None \<rparr>"
  by (simp add: run_pipeline_def run_body_def run_analysis_def Let_def)


lemma repo_dir_demo: "repo_dir (S ''owner/demo'') = S ''github_repos/demo''"
  by (simp add: repo_dir_def path_join_def BASE_DIR_def SLASH_def S_def)







lemma disk_go:
  "disk_at_start (sample_world go_disk) (S ''github_repos/demo'') = Some [Yield file_go]"
  by (simp add: disk_at_start_def sample_world_def go_disk_def mkdir_exist_ok_def)

lemma process_go:
  "process_repository (disk_at_start (sample_world go_disk)) (S ''github_repos/demo'')
     = Inr (chunk_code (S ''main.go'') (S ''package main''))"
  by (simp add: process_repository_def extract_source_code_def disk_go sample_regular
      extract_file_extracted sample_extracted)

text \<open>A run on a directory with one Go file and an analysis engine that cannot be
  reached.\<close>

theorem run_pipeline_analysis_failure_witness:
  "run_start (sample_env GitOk None None) (sample_world go_disk) (S ''owner/demo'') None
     = Inr (S ''github_repos/demo'',
            (sample_world go_disk) \<lparr> files := disk_at_start (sample_world go_disk) \<rparr>) \<and>
   run_process (sample_env GitOk None None)
      ((sample_world go_disk) \<lparr> files := disk_at_start (sample_world go_disk) \<rparr>)
      (S ''github_repos/demo'') = Inr (chunk_code (S ''main.go'') (S ''package main'')) \<and>
   analyze_repository (sample_env GitOk None None) (chunk_code (S ''main.go'') (S ''package main''))
     = Inl (Exception (S ''analysis engine unreachable'')) \<and>
   res_success (fst (run_pipeline (sample_env GitOk None None) (sample_world go_disk)
      (S ''owner/demo'') (S ''u1'') (S ''g1'') (S ''r1'') None)) = True \<and>
   res_chunks (fst (run_pipeline (sample_env GitOk None None) (sample_world go_disk)
      (S ''owner/demo'') (S ''u1'') (S ''g1'') (S ''r1'') None))
     = chunk_code (S ''main.go'') (S ''package main'') \<and>
   length (chunk_code (S ''main.go'') (S ''package main'')) = 1 \<and>
   res_vulnerability_report (fst (run_pipeline (sample_env GitOk None None) (sample_world go_disk)
      (S ''owner/demo'') (S ''u1'') (S ''g1'') (S ''r1'') None)) = None"
proof -
  let ?env = "sample_env GitOk None None"
  let ?w = "sample_world go_disk"
  let ?w1 = "?w \<lparr> files := disk_at_start ?w \<rparr>"
  let ?cs = "chunk_code (S ''main.go'') (S ''package main'')"
  have "disk_at_start ?w (repo_dir (S ''owner/demo'')) \<noteq> None"
    by (simp add: repo_dir_demo disk_go)
  from run_start_reuse[OF this, of ?env None]
  have s: "run_start ?env ?w (S ''owner/demo'') None = Inr (S ''github_repos/demo'', ?w1)"
    by (simp add: repo_dir_demo)
  have p: "run_process ?env ?w1 (S ''github_repos/demo'') = Inr ?cs"
    by (simp add: run_process_def sample_env_def process_go)
  have a: "analyze_repository ?env ?cs = Inl (Exception (S ''analysis engine unreachable''))"
    by (simp add: sample_env_def)
  have l: "length ?cs = 1"
    by (simp add: chunk_code_def chunk_lines_def chunk_finish_def chunk_step_def chunker_init_def
        Let_def S_def NL_def CHUNK_SIZE_def)
  from run_pipeline_analysis_failure[of ?env ?w "S ''owner/demo''" None "S ''github_repos/demo''" ?w1
      ?cs "Exception (S ''analysis engine unreachable'')" "S ''u1''" "S ''g1''" "S ''r1''"] s p a l
  show ?thesis by simp
qed

end
